theory Spec2Isabelle
  imports Main
begin

section \<open>The escrow contract (contracts/MneeEscrow.sol)\<close>

text \<open>
  Addresses and 32-byte words are natural numbers; \<open>0\<close> is \<open>address(0)\<close> and
  \<open>bytes32(0)\<close>. Amounts and timestamps are \<open>uint256\<close> values, modelled as naturals:
  the contract itself performs no arithmetic on them, and the one unchecked addition of
  the token wraps modulo \<open>2 ^ 256\<close> as written out below. Byte strings are lists of
  byte values.
\<close>

type_synonym address = nat
type_synonym bytes32 = nat
type_synonym bytes = "nat list"

datatype TaskStatus = Active | Completed | Refunded | Disputed

record EscrowTask =
  agent :: address
  serviceProvider :: address
  amount :: nat
  deadline :: nat
  status :: TaskStatus
  taskId :: bytes32
  taskDescription :: string
  autoRefund :: bool

text \<open>The value every key of a Solidity mapping holds before it is written.\<close>

definition zero_task :: EscrowTask where
  "zero_task = \<lparr>agent = 0, serviceProvider = 0, amount = 0, deadline = 0, status = Active,
     taskId = 0, taskDescription = [], autoRefund = False\<rparr>"

text \<open>
  Every \<open>require\<close> message of the contract and of the token (contracts/MockMNEE.sol) is
  one error; a failed \<open>require\<close> reverts the whole transaction.
\<close>

datatype error =
    InvalidProviderAddress
  | AmountMustBeGreaterThanZero
  | DeadlineMustBeInFuture
  | DescriptionRequired
  | TaskAlreadyExists
  | TransferFailed
  | TaskDoesNotExist
  | TaskNotActive
  | TaskDeadlinePassed
  | InvalidAttestation
  | NotAuthorizedOrAutoRefundDisabled
  | DeadlineNotPassed
  | NotAuthorized
  | TaskNotDisputed
  | InvalidAddress
  | InvalidSignatureLength
  | NoBalance
  | OwnableUnauthorizedAccount
  | ERC20InsufficientAllowance
  | ERC20TransferFromZeroAddress
  | ERC20TransferToZeroAddress
  | ERC20InsufficientBalance
  | ERC20ApproveFromZeroAddress
  | ERC20ApproveToZeroAddress

subsection \<open>The token (contracts/MockMNEE.sol)\<close>

text \<open>
  \<open>transfer_log\<close> is the sequence of \<open>Transfer(from, to, value)\<close> events the token has
  emitted.
\<close>

record token_state =
  balances :: "address \<Rightarrow> nat"
  allowances :: "address \<Rightarrow> address \<Rightarrow> nat"
  transfer_log :: "(address \<times> address \<times> nat) list"

definition token_transfer_internal ::
  "token_state \<Rightarrow> address \<Rightarrow> address \<Rightarrow> nat \<Rightarrow> error + token_state" where
  "token_transfer_internal tk from to amt =
     (if from = 0 then Inl ERC20TransferFromZeroAddress
      else if to = 0 then Inl ERC20TransferToZeroAddress
      else let fromBalance = balances tk from in
        if \<not> fromBalance \<ge> amt then Inl ERC20InsufficientBalance
        else let b1 = (balances tk)(from := fromBalance - amt);
                 b2 = b1(to := (b1 to + amt) mod 2 ^ 256)
             in Inr (tk\<lparr>balances := b2, transfer_log := transfer_log tk @ [(from, to, amt)]\<rparr>))"

definition token_approve_internal ::
  "token_state \<Rightarrow> address \<Rightarrow> address \<Rightarrow> nat \<Rightarrow> error + token_state" where
  "token_approve_internal tk ownr spender amt =
     (if ownr = 0 then Inl ERC20ApproveFromZeroAddress
      else if spender = 0 then Inl ERC20ApproveToZeroAddress
      else Inr (tk\<lparr>allowances := (allowances tk)(ownr := (allowances tk ownr)(spender := amt))\<rparr>))"

text \<open>\<open>transfer\<close> and \<open>transferFrom\<close> return \<open>true\<close> whenever they do not revert.\<close>

definition token_transfer ::
  "address \<Rightarrow> token_state \<Rightarrow> address \<Rightarrow> nat \<Rightarrow> error + (bool \<times> token_state)" where
  "token_transfer msg_sender tk to amt =
     (case token_transfer_internal tk msg_sender to amt of
        Inl e \<Rightarrow> Inl e
      | Inr tk' \<Rightarrow> Inr (True, tk'))"

definition token_transferFrom ::
  "address \<Rightarrow> token_state \<Rightarrow> address \<Rightarrow> address \<Rightarrow> nat \<Rightarrow> error + (bool \<times> token_state)" where
  "token_transferFrom msg_sender tk from to amt =
     (let currentAllowance = allowances tk from msg_sender in
      if \<not> currentAllowance \<ge> amt then Inl ERC20InsufficientAllowance
      else case token_approve_internal tk from msg_sender (currentAllowance - amt) of
        Inl e \<Rightarrow> Inl e
      | Inr tk1 \<Rightarrow>
         (case token_transfer_internal tk1 from to amt of
            Inl e \<Rightarrow> Inl e
          | Inr tk2 \<Rightarrow> Inr (True, tk2)))"

subsection \<open>Contract state and environment\<close>

datatype event =
    TaskCreated bytes32 address address nat nat
  | TaskCompleted bytes32 address bytes32
  | TaskRefunded bytes32 address nat
  | TaskDisputed bytes32 address
  | AttestationProviderUpdated address

record escrow_state =
  tasks :: "bytes32 \<Rightarrow> EscrowTask"
  agentTasks :: "address \<Rightarrow> bytes32 list"
  providerTasks :: "address \<Rightarrow> bytes32 list"
  attestationProvider :: address
  taskCompletionSchemaUID :: bytes32
  owner :: address
  token :: token_state
  events :: "event list"

text \<open>
  What the contract takes from the EVM: its own address, the hash that names a task
  (\<open>keccak256(abi.encodePacked(msg.sender, provider, amount, block.timestamp, description))\<close>),
  the hash of an attestation message, the signed-message prefix hash, and \<open>ecrecover\<close> on
  a 65-byte signature.
\<close>

record evm =
  this :: address
  task_hash :: "address \<Rightarrow> address \<Rightarrow> nat \<Rightarrow> nat \<Rightarrow> string \<Rightarrow> bytes32"
  message_hash :: "bytes32 \<Rightarrow> bytes32 \<Rightarrow> address \<Rightarrow> bytes32"
  eth_signed_message_hash :: "bytes32 \<Rightarrow> bytes32"
  ecrecover :: "bytes32 \<Rightarrow> bytes \<Rightarrow> address"

definition set_status :: "escrow_state \<Rightarrow> bytes32 \<Rightarrow> TaskStatus \<Rightarrow> escrow_state" where
  "set_status s tid st = s\<lparr>tasks := (tasks s)(tid := (tasks s tid)\<lparr>status := st\<rparr>)\<rparr>"

text \<open>
  \<open>require(mneeToken.transfer(to, amount), "Transfer failed")\<close>, called by the contract on
  the state it has at that point.
\<close>

definition pay_out :: "evm \<Rightarrow> escrow_state \<Rightarrow> address \<Rightarrow> nat \<Rightarrow> error + escrow_state" where
  "pay_out vm s to amt =
     (case token_transfer (this vm) (token s) to amt of
        Inl e \<Rightarrow> Inl e
      | Inr (ok, tk) \<Rightarrow> if \<not> ok then Inl TransferFailed else Inr (s\<lparr>token := tk\<rparr>))"

subsection \<open>The contract's functions\<close>

definition lockFunds ::
  "evm \<Rightarrow> address \<Rightarrow> nat \<Rightarrow> address \<Rightarrow> nat \<Rightarrow> nat \<Rightarrow> string \<Rightarrow> bool \<Rightarrow> escrow_state
     \<Rightarrow> error + escrow_state" where
  "lockFunds vm msg_sender now provider amt dl descr autoR s =
     (if provider = 0 then Inl InvalidProviderAddress
      else if \<not> amt > 0 then Inl AmountMustBeGreaterThanZero
      else if \<not> dl > now then Inl DeadlineMustBeInFuture
      else if \<not> length descr > 0 then Inl DescriptionRequired
      else let tid = task_hash vm msg_sender provider amt now descr in
        if \<not> agent (tasks s tid) = 0 then Inl TaskAlreadyExists
        else case token_transferFrom (this vm) (token s) msg_sender (this vm) amt of
          Inl e \<Rightarrow> Inl e
        | Inr (ok, tk) \<Rightarrow>
            if \<not> ok then Inl TransferFailed
            else Inr (s\<lparr>token := tk,
                tasks := (tasks s)(tid := \<lparr>agent = msg_sender, serviceProvider = provider,
                   amount = amt, deadline = dl, status = Active, taskId = tid,
                   taskDescription = descr, autoRefund = autoR\<rparr>),
                agentTasks := (agentTasks s)(msg_sender := agentTasks s msg_sender @ [tid]),
                providerTasks := (providerTasks s)(provider := providerTasks s provider @ [tid]),
                events := events s @ [TaskCreated tid msg_sender provider amt dl]\<rparr>))"

definition recoverSigner :: "evm \<Rightarrow> bytes32 \<Rightarrow> bytes \<Rightarrow> error + address" where
  "recoverSigner vm ethSignedMessageHash signature =
     (if \<not> length signature = 65 then Inl InvalidSignatureLength
      else Inr (ecrecover vm ethSignedMessageHash signature))"

definition verifyAttestation ::
  "evm \<Rightarrow> escrow_state \<Rightarrow> bytes32 \<Rightarrow> bytes32 \<Rightarrow> bytes \<Rightarrow> address \<Rightarrow> error + bool" where
  "verifyAttestation vm s tid attestationUID signature provider =
     (if length signature > 0 then
        (case recoverSigner vm
                (eth_signed_message_hash vm (message_hash vm tid attestationUID provider))
                signature of
           Inl e \<Rightarrow> Inl e
         | Inr signer \<Rightarrow> Inr (signer = attestationProvider s))
      else Inr (attestationUID \<noteq> 0))"

definition releaseWithProof ::
  "evm \<Rightarrow> address \<Rightarrow> nat \<Rightarrow> bytes32 \<Rightarrow> bytes32 \<Rightarrow> bytes \<Rightarrow> escrow_state
     \<Rightarrow> error + escrow_state" where
  "releaseWithProof vm msg_sender now tid attestationUID signature s =
     (let task = tasks s tid in
      if \<not> agent task \<noteq> 0 then Inl TaskDoesNotExist
      else if \<not> status task = Active then Inl TaskNotActive
      else if \<not> now \<le> deadline task then Inl TaskDeadlinePassed
      else case verifyAttestation vm s tid attestationUID signature (serviceProvider task) of
        Inl e \<Rightarrow> Inl e
      | Inr isValidAttestation \<Rightarrow>
          if \<not> isValidAttestation then Inl InvalidAttestation
          else case pay_out vm (set_status s tid Completed) (serviceProvider task) (amount task) of
            Inl e \<Rightarrow> Inl e
          | Inr s2 \<Rightarrow>
              Inr (s2\<lparr>events := events s2 @
                     [TaskCompleted tid (serviceProvider task) attestationUID]\<rparr>))"

definition refund ::
  "evm \<Rightarrow> address \<Rightarrow> nat \<Rightarrow> bytes32 \<Rightarrow> escrow_state \<Rightarrow> error + escrow_state" where
  "refund vm msg_sender now tid s =
     (let task = tasks s tid in
      if \<not> agent task \<noteq> 0 then Inl TaskDoesNotExist
      else if \<not> status task = Active then Inl TaskNotActive
      else if \<not> (msg_sender = agent task \<or> autoRefund task)
        then Inl NotAuthorizedOrAutoRefundDisabled
      else if \<not> now > deadline task then Inl DeadlineNotPassed
      else case pay_out vm (set_status s tid Refunded) (agent task) (amount task) of
        Inl e \<Rightarrow> Inl e
      | Inr s2 \<Rightarrow> Inr (s2\<lparr>events := events s2 @ [TaskRefunded tid (agent task) (amount task)]\<rparr>))"

definition dispute ::
  "address \<Rightarrow> bytes32 \<Rightarrow> escrow_state \<Rightarrow> error + escrow_state" where
  "dispute msg_sender tid s =
     (let task = tasks s tid in
      if \<not> agent task \<noteq> 0 then Inl TaskDoesNotExist
      else if \<not> status task = Active then Inl TaskNotActive
      else if \<not> (msg_sender = agent task \<or> msg_sender = serviceProvider task)
        then Inl NotAuthorized
      else let s1 = set_status s tid Disputed in
        Inr (s1\<lparr>events := events s1 @ [TaskDisputed tid msg_sender]\<rparr>))"

definition resolveDispute ::
  "evm \<Rightarrow> address \<Rightarrow> bytes32 \<Rightarrow> bool \<Rightarrow> escrow_state \<Rightarrow> error + escrow_state" where
  "resolveDispute vm msg_sender tid releaseToProvider s =
     (if \<not> msg_sender = owner s then Inl OwnableUnauthorizedAccount
      else let task = tasks s tid in
        if \<not> status task = Disputed then Inl TaskNotDisputed
        else let recipient = (if releaseToProvider then serviceProvider task else agent task);
                 s1 = set_status s tid (if releaseToProvider then Completed else Refunded)
             in case pay_out vm s1 recipient (amount task) of
               Inl e \<Rightarrow> Inl e
             | Inr s2 \<Rightarrow>
                 if releaseToProvider
                 then Inr (s2\<lparr>events := events s2 @ [TaskCompleted tid (serviceProvider task) 0]\<rparr>)
                 else Inr (s2\<lparr>events := events s2 @
                             [TaskRefunded tid (agent task) (amount task)]\<rparr>))"

definition updateAttestationProvider ::
  "address \<Rightarrow> address \<Rightarrow> escrow_state \<Rightarrow> error + escrow_state" where
  "updateAttestationProvider msg_sender newProvider s =
     (if \<not> msg_sender = owner s then Inl OwnableUnauthorizedAccount
      else if \<not> newProvider \<noteq> 0 then Inl InvalidAddress
      else Inr (s\<lparr>attestationProvider := newProvider,
                 events := events s @ [AttestationProviderUpdated newProvider]\<rparr>))"

definition updateSchemaUID ::
  "address \<Rightarrow> bytes32 \<Rightarrow> escrow_state \<Rightarrow> error + escrow_state" where
  "updateSchemaUID msg_sender schemaUID s =
     (if \<not> msg_sender = owner s then Inl OwnableUnauthorizedAccount
      else Inr (s\<lparr>taskCompletionSchemaUID := schemaUID\<rparr>))"

definition emergencyWithdraw :: "evm \<Rightarrow> address \<Rightarrow> escrow_state \<Rightarrow> error + escrow_state" where
  "emergencyWithdraw vm msg_sender s =
     (if \<not> msg_sender = owner s then Inl OwnableUnauthorizedAccount
      else let balance = balances (token s) (this vm) in
        if \<not> balance > 0 then Inl NoBalance
        else pay_out vm s (owner s) balance)"

subsection \<open>Transactions\<close>

datatype call =
    LockFunds address nat nat string bool
  | ReleaseWithProof bytes32 bytes32 bytes
  | Refund bytes32
  | Dispute bytes32
  | ResolveDispute bytes32 bool
  | UpdateAttestationProvider address
  | UpdateSchemaUID bytes32
  | EmergencyWithdraw

record transaction =
  msg_sender :: address
  block_timestamp :: nat
  call :: call

definition execute :: "evm \<Rightarrow> transaction \<Rightarrow> escrow_state \<Rightarrow> error + escrow_state" where
  "execute vm tx s =
     (case call tx of
        LockFunds provider amt dl descr autoR \<Rightarrow>
          lockFunds vm (msg_sender tx) (block_timestamp tx) provider amt dl descr autoR s
      | ReleaseWithProof tid uid sg \<Rightarrow>
          releaseWithProof vm (msg_sender tx) (block_timestamp tx) tid uid sg s
      | Refund tid \<Rightarrow> refund vm (msg_sender tx) (block_timestamp tx) tid s
      | Dispute tid \<Rightarrow> dispute (msg_sender tx) tid s
      | ResolveDispute tid rel \<Rightarrow> resolveDispute vm (msg_sender tx) tid rel s
      | UpdateAttestationProvider p \<Rightarrow> updateAttestationProvider (msg_sender tx) p s
      | UpdateSchemaUID u \<Rightarrow> updateSchemaUID (msg_sender tx) u s
      | EmergencyWithdraw \<Rightarrow> emergencyWithdraw vm (msg_sender tx) s)"

text \<open>A reverted transaction leaves the state as it was.\<close>

definition apply_tx :: "evm \<Rightarrow> transaction \<Rightarrow> escrow_state \<Rightarrow> escrow_state" where
  "apply_tx vm tx s = (case execute vm tx s of Inl e \<Rightarrow> s | Inr s' \<Rightarrow> s')"

fun run :: "evm \<Rightarrow> transaction list \<Rightarrow> escrow_state \<Rightarrow> escrow_state" where
  "run vm [] s = s"
| "run vm (tx # txs) s = run vm txs (apply_tx vm tx s)"

text \<open>The state the constructor leaves: no task, \<open>msg.sender\<close> as owner.\<close>

definition deployed :: "address \<Rightarrow> address \<Rightarrow> token_state \<Rightarrow> escrow_state" where
  "deployed deployer attester tk =
     \<lparr>tasks = (\<lambda>_. zero_task), agentTasks = (\<lambda>_. []), providerTasks = (\<lambda>_. []),
      attestationProvider = attester, taskCompletionSchemaUID = 0, owner = deployer,
      token = tk, events = []\<rparr>"


section \<open>The SDK utilities (utils.ts)\<close>

text \<open>
  JavaScript strings are modelled as \<open>string\<close>; every string the utilities build is
  ASCII. \<open>bigint\<close> is \<open>int\<close>. Only the \<open>string\<close> form of an amount is modelled
  (a \<open>number\<close> is first rendered by \<open>toString\<close>, which is floating point).
\<close>

datatype sdk_error =
    SyntaxError
  | AccountNotInitialized
  | WalletClientNotInitialized
  | SessionKeyNotFound
  | SessionKeyExpired
  | AmountExceedsLimit string
  | MainAccountNotInitialized
  | IntegerOutOfRange
  | WriteContractRejected
  | WaitForReceiptRejected

definition decimals :: nat where
  "decimals = 6"

definition padEnd :: "string \<Rightarrow> nat \<Rightarrow> char \<Rightarrow> string" where
  "padEnd s n c = s @ replicate (n - length s) c"

definition padStart :: "string \<Rightarrow> nat \<Rightarrow> char \<Rightarrow> string" where
  "padStart s n c = replicate (n - length s) c @ s"

text \<open>\<open>s.split(c)\<close>: the pieces between the occurrences of \<open>c\<close>, never an empty array.\<close>

fun split_on :: "char \<Rightarrow> string \<Rightarrow> string list" where
  "split_on c [] = [[]]"
| "split_on c (x # xs) =
     (if x = c then [] # split_on c xs
      else (case split_on c xs of [] \<Rightarrow> [[x]] | y # ys \<Rightarrow> (x # y) # ys))"

text \<open>
  \<open>BigInt(string)\<close>: surrounding white space is dropped; the empty string is \<open>0n\<close>; a
  \<open>0x\<close>, \<open>0o\<close> or \<open>0b\<close> prefix selects the radix and takes no sign; otherwise an
  optional sign and decimal digits; anything else throws a \<open>SyntaxError\<close>.
\<close>

definition digit_value :: "char \<Rightarrow> nat option" where
  "digit_value c =
     (let n = (of_char c :: nat) in
      if 48 \<le> n \<and> n \<le> 57 then Some (n - 48)
      else if 97 \<le> n \<and> n \<le> 102 then Some (n - 87)
      else if 65 \<le> n \<and> n \<le> 70 then Some (n - 55)
      else None)"

fun parse_digits :: "nat \<Rightarrow> string \<Rightarrow> nat \<Rightarrow> nat option" where
  "parse_digits radix [] acc = Some acc"
| "parse_digits radix (c # cs) acc =
     (case digit_value c of
        None \<Rightarrow> None
      | Some d \<Rightarrow> if d < radix then parse_digits radix cs (acc * radix + d) else None)"

definition is_white_space :: "char \<Rightarrow> bool" where
  "is_white_space c = ((of_char c :: nat) \<in> {9, 10, 11, 12, 13, 32, 160})"

definition trim :: "string \<Rightarrow> string" where
  "trim s = rev (dropWhile is_white_space (rev (dropWhile is_white_space s)))"

definition parse_unsigned :: "nat \<Rightarrow> string \<Rightarrow> sdk_error + int" where
  "parse_unsigned radix ds =
     (if ds = [] then Inl SyntaxError
      else case parse_digits radix ds 0 of
        None \<Rightarrow> Inl SyntaxError
      | Some n \<Rightarrow> Inr (int n))"

definition BigInt :: "string \<Rightarrow> sdk_error + int" where
  "BigInt str =
     (let s = trim str in
      if s = [] then Inr 0
      else if take 2 s = ''0x'' \<or> take 2 s = ''0X'' then parse_unsigned 16 (drop 2 s)
      else if take 2 s = ''0o'' \<or> take 2 s = ''0O'' then parse_unsigned 8 (drop 2 s)
      else if take 2 s = ''0b'' \<or> take 2 s = ''0B'' then parse_unsigned 2 (drop 2 s)
      else if hd s = CHR ''-'' then
        (case parse_unsigned 10 (tl s) of Inl e \<Rightarrow> Inl e | Inr n \<Rightarrow> Inr (- n))
      else if hd s = CHR ''+'' then parse_unsigned 10 (tl s)
      else parse_unsigned 10 s)"

text \<open>\<open>bigint.toString()\<close>: decimal digits, most significant first, \<open>-\<close> before a negative.\<close>

definition digit_char :: "nat \<Rightarrow> char" where
  "digit_char d = ''0123456789'' ! d"

fun digits10 :: "nat \<Rightarrow> string" where
  "digits10 n = (if n < 10 then [digit_char n] else digits10 (n div 10) @ [digit_char (n mod 10)])"

definition bigint_toString :: "int \<Rightarrow> string" where
  "bigint_toString i = (if i < 0 then CHR ''-'' # digits10 (nat (- i)) else digits10 (nat i))"

definition toWei :: "string \<Rightarrow> sdk_error + int" where
  "toWei amountStr =
     (let parts = split_on CHR ''.'' amountStr;
          whole = (case parts of [] \<Rightarrow> [] | w # _ \<Rightarrow> w);
          decimal = (case parts of _ # d # _ \<Rightarrow> d | _ \<Rightarrow> []);
          paddedDecimal = padEnd decimal decimals CHR ''0'';
          truncatedDecimal = take decimals paddedDecimal
      in BigInt (whole @ truncatedDecimal))"

definition fromWei :: "int \<Rightarrow> string" where
  "fromWei wei =
     (let weiStr = padStart (bigint_toString wei) (decimals + 1) CHR ''0'';
          decimalPosition = length weiStr - decimals;
          whole = (if take decimalPosition weiStr = [] then ''0'' else take decimalPosition weiStr);
          decimal = drop decimalPosition weiStr;
          trimmedDecimal = rev (dropWhile (\<lambda>c. c = CHR ''0'') (rev decimal))
      in if trimmedDecimal \<noteq> [] then whole @ ''.'' @ trimmedDecimal else whole)"

text \<open>
  Time is \<open>Date.now()\<close>, in milliseconds; \<open>Math.floor(Date.now() / 1000)\<close> is \<open>div 1000\<close>.
  A JavaScript \<open>number\<close> holding a timestamp or a duration is modelled as an integer,
  which is exact for the whole numbers below \<open>2 ^ 53\<close>; beyond that the code's sum is
  rounded to a double and the model's is not.
\<close>

definition getExpirationTimestamp :: "int \<Rightarrow> int \<Rightarrow> int" where
  "getExpirationTimestamp now_ms durationInSeconds = now_ms div 1000 + durationInSeconds"

definition isExpired :: "int \<Rightarrow> int \<Rightarrow> bool" where
  "isExpired now_ms expiresAt = (now_ms div 1000 \<ge> expiresAt)"


section \<open>The SDK client (constants.ts, MneeClient)\<close>

record SessionKey =
  privateKey :: nat
  address :: address
  spendLimit :: int
  remainingLimit :: int
  expiresAt :: int
  createdAt :: int

datatype PaymentStatus = PENDING | CONFIRMED | FAILED

record TransactionReceipt =
  r_hash :: nat
  r_from :: address
  r_to :: address
  r_amount :: int
  r_status :: PaymentStatus
  r_timestamp :: int
  r_blockNumber :: nat

text \<open>
  The constructor sets \<open>account\<close> and \<open>walletClient\<close> together, so one field stands for
  both. \<open>sessionKeys\<close> is the in-memory \<open>Map\<close>.
\<close>

record MneeClient =
  account :: "address option"
  tokenAddress :: address
  sessionKeys :: "string \<rightharpoonup> SessionKey"

text \<open>
  A \<open>writeContract\<close> call names the signer, the token function and its arguments. The
  ABI (\<open>MNEE_TOKEN_ABI\<close>) types every amount as \<open>uint256\<close>: a value outside
  \<open>0 .. 2 ^ 256 - 1\<close> cannot be encoded and the call throws before anything is sent.
  Otherwise the node either rejects the call or returns a transaction hash; which of the
  two is the environment's choice, as is the outcome of waiting for the receipt.
\<close>

datatype contract_write =
    WriteApprove address address int
  | WriteTransferFrom address address address int

datatype write_outcome = Rejected | Accepted nat

datatype receipt_outcome = WaitRejected | Mined bool nat

definition uint256 :: "int \<Rightarrow> bool" where
  "uint256 v = (0 \<le> v \<and> v < 2 ^ 256)"

fun write_value :: "contract_write \<Rightarrow> int" where
  "write_value (WriteApprove signer spender v) = v"
| "write_value (WriteTransferFrom signer from to v) = v"

text \<open>The result of \<open>writeContract\<close> and the transactions it has broadcast.\<close>

definition writeContract ::
  "write_outcome \<Rightarrow> contract_write \<Rightarrow> (sdk_error + nat) \<times> contract_write list" where
  "writeContract outcome w =
     (if \<not> uint256 (write_value w) then (Inl IntegerOutOfRange, [])
      else case outcome of
        Rejected \<Rightarrow> (Inl WriteContractRejected, [])
      | Accepted h \<Rightarrow> (Inr h, [w]))"

definition approve ::
  "write_outcome \<Rightarrow> MneeClient \<Rightarrow> address \<Rightarrow> string
     \<Rightarrow> (sdk_error + nat) \<times> contract_write list" where
  "approve outcome c spender amnt =
     (case account c of
        None \<Rightarrow> (Inl WalletClientNotInitialized, [])
      | Some acct \<Rightarrow>
          (case toWei amnt of
             Inl e \<Rightarrow> (Inl e, [])
           | Inr amountWei \<Rightarrow> writeContract outcome (WriteApprove acct spender amountWei)))"

text \<open>
  \<open>authorizeAgent\<close>: \<open>generatedKey\<close> is what \<open>generatePrivateKey()\<close> returned and
  \<open>sessionAddress\<close> the address of that key. The key is stored before the allowance is
  requested, so it stays stored when \<open>approve\<close> throws. A missing or empty label falls
  back to the session address (\<open>addressText\<close> is its text form).
\<close>

record AuthorizeAgentOptions =
  opt_spendLimit :: string
  opt_duration :: int
  opt_label :: "string option"

definition authorizeAgent ::
  "int \<Rightarrow> nat \<Rightarrow> address \<Rightarrow> string \<Rightarrow> write_outcome \<Rightarrow> MneeClient \<Rightarrow> AuthorizeAgentOptions
     \<Rightarrow> (sdk_error + SessionKey) \<times> MneeClient \<times> contract_write list" where
  "authorizeAgent now_ms generatedKey sessionAddress addressText outcome c options =
     (if account c = None then (Inl AccountNotInitialized, c, [])
      else case toWei (opt_spendLimit options) of
        Inl e \<Rightarrow> (Inl e, c, [])
      | Inr spendLimitWei \<Rightarrow>
          let expires = getExpirationTimestamp now_ms (opt_duration options);
              sessionKey = \<lparr>privateKey = generatedKey, address = sessionAddress,
                 spendLimit = spendLimitWei, remainingLimit = spendLimitWei,
                 expiresAt = expires, createdAt = now_ms div 1000\<rparr>;
              keyId = (case opt_label options of
                         None \<Rightarrow> addressText
                       | Some l \<Rightarrow> if l = [] then addressText else l);
              c1 = c\<lparr>sessionKeys := (sessionKeys c)(keyId \<mapsto> sessionKey)\<rparr>
          in case approve outcome c1 sessionAddress (opt_spendLimit options) of
               (Inl e, sent) \<Rightarrow> (Inl e, c1, sent)
             | (Inr h, sent) \<Rightarrow> (Inr sessionKey, c1, sent))"

definition getSessionKey :: "MneeClient \<Rightarrow> string \<Rightarrow> SessionKey option" where
  "getSessionKey c keyId = sessionKeys c keyId"

definition revokeSessionKey ::
  "write_outcome \<Rightarrow> MneeClient \<Rightarrow> string
     \<Rightarrow> (sdk_error + nat) \<times> MneeClient \<times> contract_write list" where
  "revokeSessionKey outcome c keyId =
     (case sessionKeys c keyId of
        None \<Rightarrow> (Inl SessionKeyNotFound, c, [])
      | Some sessionKey \<Rightarrow>
          (case approve outcome c (address sessionKey) ''0'' of
             (Inl e, sent) \<Rightarrow> (Inl e, c, sent)
           | (Inr h, sent) \<Rightarrow> (Inr h, c\<lparr>sessionKeys := (sessionKeys c)(keyId := None)\<rparr>, sent)))"

text \<open>
  \<open>_sendPaymentWithSessionKey\<close>. The caller's key object is mutated in place, so the
  model returns it next to the result: it is debited as soon as \<open>writeContract\<close> has
  returned a hash, also when waiting for the receipt throws afterwards.
  \<open>signerOf\<close> is \<open>privateKeyToAccount\<close>.
\<close>

record payment_env =
  now_ms :: int
  submit :: write_outcome
  receipt :: receipt_outcome
  end_ms :: int

definition sendPaymentWithSessionKey ::
  "(nat \<Rightarrow> address) \<Rightarrow> payment_env \<Rightarrow> MneeClient \<Rightarrow> address \<Rightarrow> int \<Rightarrow> SessionKey
     \<Rightarrow> (sdk_error + TransactionReceipt) \<times> SessionKey" where
  "sendPaymentWithSessionKey signerOf env c to amnt sessionKey =
     (if isExpired (now_ms env) (expiresAt sessionKey) then (Inl SessionKeyExpired, sessionKey)
      else if amnt > remainingLimit sessionKey
        then (Inl (AmountExceedsLimit (fromWei (remainingLimit sessionKey))), sessionKey)
      else case account c of
        None \<Rightarrow> (Inl MainAccountNotInitialized, sessionKey)
      | Some acct \<Rightarrow>
          (case fst (writeContract (submit env)
                  (WriteTransferFrom (signerOf (privateKey sessionKey)) acct to amnt)) of
             Inl e \<Rightarrow> (Inl e, sessionKey)
           | Inr h \<Rightarrow>
               let debited = sessionKey\<lparr>remainingLimit := remainingLimit sessionKey - amnt\<rparr>
               in case receipt env of
                    WaitRejected \<Rightarrow> (Inl WaitForReceiptRejected, debited)
                  | Mined success blockNumber \<Rightarrow>
                      (Inr \<lparr>r_hash = h, r_from = acct, r_to = to, r_amount = amnt,
                            r_status = (if success then CONFIRMED else FAILED),
                            r_timestamp = end_ms env div 1000,
                            r_blockNumber = blockNumber\<rparr>, debited)))"


subsection \<open>The payment between its \<open>await\<close> points\<close>

text \<open>
  \<open>_sendPaymentWithSessionKey\<close> is an \<open>async\<close> function: it runs without interruption
  up to \<open>await writeContract\<close>, again from there to \<open>await waitForTransactionReceipt\<close>,
  and then to its \<open>return\<close>. Each stretch reads the key object as it is at that moment.
\<close>

datatype pay_task =
    AwaitingSubmit contract_write
  | AwaitingReceipt nat contract_write
  | Finished "sdk_error + TransactionReceipt"

definition payment_start ::
  "(nat \<Rightarrow> address) \<Rightarrow> int \<Rightarrow> MneeClient \<Rightarrow> address \<Rightarrow> int \<Rightarrow> SessionKey \<Rightarrow> pay_task" where
  "payment_start signerOf now c to amnt sessionKey =
     (if isExpired now (expiresAt sessionKey) then Finished (Inl SessionKeyExpired)
      else if amnt > remainingLimit sessionKey
        then Finished (Inl (AmountExceedsLimit (fromWei (remainingLimit sessionKey))))
      else case account c of
        None \<Rightarrow> Finished (Inl MainAccountNotInitialized)
      | Some acct \<Rightarrow>
          AwaitingSubmit (WriteTransferFrom (signerOf (privateKey sessionKey)) acct to amnt))"

definition payment_submitted ::
  "write_outcome \<Rightarrow> pay_task \<Rightarrow> SessionKey \<Rightarrow> pay_task \<times> SessionKey" where
  "payment_submitted outcome t sessionKey =
     (case t of
        AwaitingSubmit w \<Rightarrow>
          (case fst (writeContract outcome w) of
             Inl e \<Rightarrow> (Finished (Inl e), sessionKey)
           | Inr h \<Rightarrow>
               (AwaitingReceipt h w,
                sessionKey\<lparr>remainingLimit := remainingLimit sessionKey - write_value w\<rparr>))
      | _ \<Rightarrow> (t, sessionKey))"

definition payment_mined :: "receipt_outcome \<Rightarrow> int \<Rightarrow> pay_task \<Rightarrow> pay_task" where
  "payment_mined outcome finish_ms t =
     (case t of
        AwaitingReceipt h (WriteTransferFrom signer acct to amnt) \<Rightarrow>
          (case outcome of
             WaitRejected \<Rightarrow> Finished (Inl WaitForReceiptRejected)
           | Mined success blockNumber \<Rightarrow>
               Finished (Inr \<lparr>r_hash = h, r_from = acct, r_to = to, r_amount = amnt,
                  r_status = (if success then CONFIRMED else FAILED),
                  r_timestamp = finish_ms div 1000, r_blockNumber = blockNumber\<rparr>))
      | _ \<Rightarrow> t)"

text \<open>
  Two payments on the same key object, both called before either \<open>writeContract\<close> has
  returned (as under \<open>Promise.all\<close>): both run their first stretch, then each resumes.
\<close>

definition two_concurrent_payments ::
  "(nat \<Rightarrow> address) \<Rightarrow> MneeClient \<Rightarrow> SessionKey
     \<Rightarrow> payment_env \<Rightarrow> address \<Rightarrow> int \<Rightarrow> payment_env \<Rightarrow> address \<Rightarrow> int
     \<Rightarrow> pay_task \<times> pay_task \<times> SessionKey" where
  "two_concurrent_payments signerOf c k0 envA toA amntA envB toB amntB =
     (let tA = payment_start signerOf (now_ms envA) c toA amntA k0;
          tB = payment_start signerOf (now_ms envB) c toB amntB k0;
          (tA1, k1) = payment_submitted (submit envA) tA k0;
          (tB1, k2) = payment_submitted (submit envB) tB k1
      in (payment_mined (receipt envA) (end_ms envA) tA1,
          payment_mined (receipt envB) (end_ms envB) tB1, k2))"

subsection \<open>Payments made one after another\<close>

record payment =
  p_to :: address
  p_amount :: int
  p_env :: payment_env

text \<open>
  A payment has debited the key when a transaction hash was obtained: it returned a
  receipt, or only the wait for the receipt threw.
\<close>

fun debit_made :: "sdk_error + TransactionReceipt \<Rightarrow> bool" where
  "debit_made (Inr rc) = True"
| "debit_made (Inl e) = (e = WaitForReceiptRejected)"

fun run_payments ::
  "(nat \<Rightarrow> address) \<Rightarrow> MneeClient \<Rightarrow> payment list \<Rightarrow> SessionKey \<Rightarrow> SessionKey \<times> int list" where
  "run_payments signerOf c [] k = (k, [])"
| "run_payments signerOf c (p # ps) k =
     (let (res, k1) = sendPaymentWithSessionKey signerOf (p_env p) c (p_to p) (p_amount p) k;
          (k2, debits) = run_payments signerOf c ps k1
      in (k2, (if debit_made res then [p_amount p] else []) @ debits))"

section \<open>The escrow API route (app/api/escrow/release/route.ts)\<close>

text \<open>
  The route keeps one row per task in the \<open>escrowTransaction\<close> table and appends to the
  \<open>webhookEvent\<close> table. Dates are milliseconds. A request field is absent (\<open>None\<close>) or
  a string; \<open>!field\<close> holds for an absent or empty one. A failing database call (the
  \<open>catch\<close> branch) is not modelled.
\<close>

datatype EscrowStatus = ACTIVE | COMPLETED | REFUNDED | DISPUTED

record EscrowTransaction =
  e_taskId :: string
  e_agentAddress :: string
  e_providerAddress :: string
  e_amount :: string
  e_status :: EscrowStatus
  e_deadline :: int
  e_autoRefund :: bool
  e_attestationUID :: "string option"
  e_completedAt :: "int option"
  e_refundedAt :: "int option"

record database =
  escrowTransaction :: "string \<rightharpoonup> EscrowTransaction"
  webhookEvent :: "string list"

datatype api_response = Ok200 EscrowTransaction string | ErrorJson nat string

fun status_lower :: "EscrowStatus \<Rightarrow> string" where
  "status_lower ACTIVE = ''active''"
| "status_lower COMPLETED = ''completed''"
| "status_lower REFUNDED = ''refunded''"
| "status_lower DISPUTED = ''disputed''"

definition falsy :: "string option \<Rightarrow> bool" where
  "falsy v = (v = None \<or> v = Some [])"

definition route_POST ::
  "int \<Rightarrow> string option \<Rightarrow> string option \<Rightarrow> string option \<Rightarrow> database
     \<Rightarrow> api_response \<times> database" where
  "route_POST now body_taskId body_attestationUID body_signature db =
     (if falsy body_taskId \<or> falsy body_attestationUID
        then (ErrorJson 400 ''Missing taskId or attestationUID'', db)
      else case escrowTransaction db (the body_taskId) of
        None \<Rightarrow> (ErrorJson 404 ''Task not found'', db)
      | Some escrow \<Rightarrow>
          if e_status escrow \<noteq> ACTIVE
            then (ErrorJson 400 (''Task is '' @ status_lower (e_status escrow) @ '', cannot release''), db)
          else if e_deadline escrow < now
            then (ErrorJson 400 ''Task deadline has passed'', db)
          else let updatedEscrow = escrow\<lparr>e_status := COMPLETED,
                       e_attestationUID := body_attestationUID, e_completedAt := Some now\<rparr>
               in (Ok200 updatedEscrow ''Escrow funds released to provider'',
                   db\<lparr>escrowTransaction := (escrowTransaction db)(the body_taskId \<mapsto> updatedEscrow),
                      webhookEvent := webhookEvent db @ [''escrow.released'']\<rparr>))"

definition route_PUT ::
  "int \<Rightarrow> string option \<Rightarrow> database \<Rightarrow> api_response \<times> database" where
  "route_PUT now body_taskId db =
     (if falsy body_taskId then (ErrorJson 400 ''Missing taskId'', db)
      else case escrowTransaction db (the body_taskId) of
        None \<Rightarrow> (ErrorJson 404 ''Task not found'', db)
      | Some escrow \<Rightarrow>
          if e_status escrow \<noteq> ACTIVE
            then (ErrorJson 400 (''Task is '' @ status_lower (e_status escrow) @ '', cannot refund''), db)
          else if e_deadline escrow \<ge> now
            then (ErrorJson 400 ''Deadline has not passed yet'', db)
          else let updatedEscrow = escrow\<lparr>e_status := REFUNDED, e_refundedAt := Some now\<rparr>
               in (Ok200 updatedEscrow ''Escrow funds refunded to agent'',
                   db\<lparr>escrowTransaction := (escrowTransaction db)(the body_taskId \<mapsto> updatedEscrow),
                      webhookEvent := webhookEvent db @ [''escrow.refunded'']\<rparr>))"

section \<open>Observations on runs of the contract\<close>

definition terminal :: "TaskStatus \<Rightarrow> bool" where
  "terminal st = (st = Completed \<or> st = Refunded)"

text \<open>A task slot that no \<open>lockFunds\<close> has written is still \<open>Active\<close>.\<close>

definition task_wf :: "escrow_state \<Rightarrow> bool" where
  "task_wf s = (\<forall>t. agent (tasks s t) = 0 \<longrightarrow> status (tasks s t) = Active)"

text \<open>The token transfers a transaction has added to the log.\<close>

definition new_transfers :: "escrow_state \<Rightarrow> escrow_state \<Rightarrow> (address \<times> address \<times> nat) list" where
  "new_transfers s s' = drop (length (transfer_log (token s))) (transfer_log (token s'))"

text \<open>The calls that move a task's funds out of custody.\<close>

definition settles :: "call \<Rightarrow> bytes32 \<Rightarrow> bool" where
  "settles c t = (case c of
       ReleaseWithProof tid uid sg \<Rightarrow> tid = t
     | Refund tid \<Rightarrow> tid = t
     | ResolveDispute tid rel \<Rightarrow> tid = t
     | _ \<Rightarrow> False)"

text \<open>
  What a task in a given state has been paid: its amount to the provider when
  \<open>Completed\<close>, to the agent when \<open>Refunded\<close>, nothing otherwise.
\<close>

definition expected_payouts :: "evm \<Rightarrow> EscrowTask \<Rightarrow> (address \<times> address \<times> nat) list" where
  "expected_payouts vm task =
     (case status task of
        Completed \<Rightarrow> [(this vm, serviceProvider task, amount task)]
      | Refunded \<Rightarrow> [(this vm, agent task, amount task)]
      | _ \<Rightarrow> [])"

text \<open>All transfers made, over a run, by the calls that settle task \<open>t\<close>.\<close>

fun payouts ::
  "evm \<Rightarrow> bytes32 \<Rightarrow> transaction list \<Rightarrow> escrow_state \<Rightarrow> (address \<times> address \<times> nat) list" where
  "payouts vm t [] s = []"
| "payouts vm t (tx # txs) s =
     (if settles (call tx) t then new_transfers s (apply_tx vm tx s) else []) @
     payouts vm t txs (apply_tx vm tx s)"

text \<open>The number of steps of a run at which the status of \<open>t\<close> changes into a terminal one.\<close>

fun terminal_transitions :: "evm \<Rightarrow> bytes32 \<Rightarrow> transaction list \<Rightarrow> escrow_state \<Rightarrow> nat" where
  "terminal_transitions vm t [] s = 0"
| "terminal_transitions vm t (tx # txs) s =
     (if status (tasks (apply_tx vm tx s) t) \<noteq> status (tasks s t) \<and>
         terminal (status (tasks (apply_tx vm tx s) t)) then 1 else 0) +
     terminal_transitions vm t txs (apply_tx vm tx s)"

section \<open>Digit strings\<close>

definition is_digit :: "char \<Rightarrow> bool" where
  "is_digit c = (c \<in> set ''0123456789'')"

definition all_digits :: "string \<Rightarrow> bool" where
  "all_digits s = (\<forall>c\<in>set s. is_digit c)"

section \<open>Example values\<close>

text \<open>
  A small world for the concrete checks: agent \<open>1\<close>, provider \<open>2\<close>, a bystander \<open>3\<close>,
  the attestation provider \<open>8\<close>, the owner \<open>9\<close> and the contract at address \<open>100\<close>; one
  task, number \<open>7\<close>, of \<open>500\<close> units with deadline \<open>10\<close>.
\<close>

definition vm0 :: evm where
  "vm0 = \<lparr>this = 100, task_hash = (\<lambda>a p m n d. 7), message_hash = (\<lambda>t u p. 0),
     eth_signed_message_hash = (\<lambda>h. h), ecrecover = (\<lambda>h sg. 0)\<rparr>"

definition token0 :: token_state where
  "token0 = \<lparr>balances = (\<lambda>_. 0)(1 := 1000),
     allowances = (\<lambda>_. (\<lambda>_. 0))(1 := (\<lambda>_. 0)(100 := 500)), transfer_log = []\<rparr>"

definition txs0 :: "transaction list" where
  "txs0 = [\<lparr>msg_sender = 1, block_timestamp = 0, call = LockFunds 2 500 10 ''job'' True\<rparr>,
           \<lparr>msg_sender = 2, block_timestamp = 10, call = ReleaseWithProof 7 5 []\<rparr>,
           \<lparr>msg_sender = 1, block_timestamp = 11, call = Refund 7\<rparr>]"

definition locked_state :: "bool \<Rightarrow> escrow_state" where
  "locked_state autoR =
     \<lparr>tasks = (\<lambda>_. zero_task)(7 := \<lparr>agent = 1, serviceProvider = 2, amount = 500, deadline = 10,
         status = Active, taskId = 7, taskDescription = ''job'', autoRefund = autoR\<rparr>),
      agentTasks = (\<lambda>_. [])(1 := [7]), providerTasks = (\<lambda>_. [])(2 := [7]),
      attestationProvider = 8, taskCompletionSchemaUID = 0, owner = 9,
      token = \<lparr>balances = (\<lambda>_. 0)(1 := 500, 100 := 500), allowances = (\<lambda>_. (\<lambda>_. 0)),
         transfer_log = [(1, 100, 500)]\<rparr>,
      events = [TaskCreated 7 1 2 500 10]\<rparr>"

definition row0 :: EscrowTransaction where
  "row0 = \<lparr>e_taskId = ''0x07'', e_agentAddress = ''0x01'', e_providerAddress = ''0x02'',
     e_amount = ''500'', e_status = ACTIVE, e_deadline = 10000, e_autoRefund = False,
     e_attestationUID = None, e_completedAt = None, e_refundedAt = None\<rparr>"

definition db0 :: database where
  "db0 = \<lparr>escrowTransaction = [''0x07'' \<mapsto> row0], webhookEvent = []\<rparr>"

text \<open>
  A client whose main account is \<open>1\<close> and a session key for the signer \<open>1007\<close> with a
  limit of \<open>100\<close> minor units, expiring at second \<open>2000\<close>; the clock reads second \<open>1500\<close>.
\<close>

definition example_signer :: "nat \<Rightarrow> address" where
  "example_signer pk = pk + 1000"

definition key0 :: SessionKey where
  "key0 = \<lparr>privateKey = 7, address = 1007, spendLimit = 100, remainingLimit = 100,
     expiresAt = 2000, createdAt = 1000\<rparr>"

definition client0 :: MneeClient where
  "client0 = \<lparr>account = Some 1, tokenAddress = 50, sessionKeys = [''agent'' \<mapsto> key0]\<rparr>"

definition client0_revoked :: MneeClient where
  "client0_revoked = \<lparr>account = Some 1, tokenAddress = 50, sessionKeys = Map.empty\<rparr>"

definition env_confirmed :: payment_env where
  "env_confirmed = \<lparr>now_ms = 1500000, submit = Accepted 99, receipt = Mined True 12,
     end_ms = 1501000\<rparr>"

definition env_reverted :: payment_env where
  "env_reverted = \<lparr>now_ms = 1500000, submit = Accepted 99, receipt = Mined False 12,
     end_ms = 1501000\<rparr>"

definition client_new :: MneeClient where
  "client_new = \<lparr>account = Some 1, tokenAddress = 50, sessionKeys = Map.empty\<rparr>"

definition scenario_options :: AuthorizeAgentOptions where
  "scenario_options = \<lparr>opt_spendLimit = ''1000'', opt_duration = 3600, opt_label = Some ''agent''\<rparr>"

definition scenario_key :: SessionKey where
  "scenario_key = \<lparr>privateKey = 7, address = 1007, spendLimit = 1000000000,
     remainingLimit = 1000000000, expiresAt = 4600, createdAt = 1000\<rparr>"

definition scenario_payments :: "payment list" where
  "scenario_payments =
     [\<lparr>p_to = 2, p_amount = 400000000, p_env = env_confirmed\<rparr>,
      \<lparr>p_to = 2, p_amount = 700000000, p_env = env_confirmed\<rparr>,
      \<lparr>p_to = 2, p_amount = 100000000, p_env = env_reverted\<rparr>]"

section \<open>Rules for evaluating concrete terms\<close>

declare digits10.simps [simp del]

lemma replicate_numeral [simp]: "replicate (numeral k) x = x # replicate (pred_numeral k) x"
  by (simp add: numeral_eq_Suc)

lemmas contract_defs = execute_def apply_tx_def lockFunds_def releaseWithProof_def refund_def
  dispute_def resolveDispute_def verifyAttestation_def recoverSigner_def pay_out_def set_status_def
  token_transfer_def token_transferFrom_def token_transfer_internal_def token_approve_internal_def
  deployed_def zero_task_def Let_def

lemmas pay_defs = sendPaymentWithSessionKey_def writeContract_def uint256_def isExpired_def Let_def

lemmas fixtures = example_signer_def key0_def client0_def client0_revoked_def env_confirmed_def env_reverted_def

lemma toWei_zero: "toWei ''0'' = Inr 0"
  by (simp add: toWei_def BigInt_def decimals_def padEnd_def trim_def is_white_space_def
        parse_unsigned_def digit_value_def)

lemma toWei_1000: "toWei ''1000'' = Inr 1000000000"
  by (simp add: toWei_def BigInt_def decimals_def padEnd_def trim_def is_white_space_def
        parse_unsigned_def digit_value_def)

section \<open>The escrow state machine\<close>

subsection \<open>What a successful call has done\<close>

lemma pay_out_Inr:
  "pay_out vm s to amt = Inr s' \<Longrightarrow>
     tasks s' = tasks s \<and> owner s' = owner s \<and>
     transfer_log (token s') = transfer_log (token s) @ [(this vm, to, amt)]"
  by (auto simp: pay_out_def token_transfer_def token_transfer_internal_def Let_def
           split: sum.splits if_splits prod.splits)

lemma release_Inr:
  assumes "releaseWithProof vm c now tid uid sg s = Inr s'"
  shows "status (tasks s tid) = Active \<and> agent (tasks s tid) \<noteq> 0 \<and> now \<le> deadline (tasks s tid) \<and>
         tasks s' = (tasks s)(tid := (tasks s tid)\<lparr>status := Completed\<rparr>) \<and>
         owner s' = owner s \<and>
         transfer_log (token s') = transfer_log (token s) @
            [(this vm, serviceProvider (tasks s tid), amount (tasks s tid))]"
  using assms
  by (auto simp: releaseWithProof_def Let_def set_status_def split: sum.splits if_splits dest!: pay_out_Inr)

lemma refund_Inr:
  assumes "refund vm c now tid s = Inr s'"
  shows "status (tasks s tid) = Active \<and> agent (tasks s tid) \<noteq> 0 \<and> deadline (tasks s tid) < now \<and>
         (c = agent (tasks s tid) \<or> autoRefund (tasks s tid)) \<and>
         tasks s' = (tasks s)(tid := (tasks s tid)\<lparr>status := Refunded\<rparr>) \<and>
         owner s' = owner s \<and>
         transfer_log (token s') = transfer_log (token s) @
            [(this vm, agent (tasks s tid), amount (tasks s tid))]"
  using assms
  by (auto simp: refund_def Let_def set_status_def split: sum.splits if_splits dest!: pay_out_Inr)

lemma dispute_Inr:
  assumes "dispute c tid s = Inr s'"
  shows "status (tasks s tid) = Active \<and> agent (tasks s tid) \<noteq> 0 \<and>
         (c = agent (tasks s tid) \<or> c = serviceProvider (tasks s tid)) \<and>
         tasks s' = (tasks s)(tid := (tasks s tid)\<lparr>status := Disputed\<rparr>) \<and>
         owner s' = owner s \<and> token s' = token s"
  using assms
  by (auto simp: dispute_def Let_def set_status_def split: sum.splits if_splits)

lemma resolve_Inr:
  assumes "resolveDispute vm c tid rel s = Inr s'"
  shows "status (tasks s tid) = Disputed \<and> c = owner s \<and>
         tasks s' = (tasks s)(tid := (tasks s tid)\<lparr>status := (if rel then Completed else Refunded)\<rparr>) \<and>
         owner s' = owner s \<and>
         transfer_log (token s') = transfer_log (token s) @
            [(this vm, if rel then serviceProvider (tasks s tid) else agent (tasks s tid),
              amount (tasks s tid))]"
  using assms
  by (auto simp: resolveDispute_def Let_def set_status_def split: sum.splits if_splits dest!: pay_out_Inr)

lemma lockFunds_Inr:
  assumes "lockFunds vm c now provider amt dl descr autoR s = Inr s'"
  shows "agent (tasks s (task_hash vm c provider amt now descr)) = 0 \<and>
         tasks s' = (tasks s)(task_hash vm c provider amt now descr :=
            \<lparr>agent = c, serviceProvider = provider, amount = amt, deadline = dl, status = Active,
             taskId = task_hash vm c provider amt now descr, taskDescription = descr,
             autoRefund = autoR\<rparr>) \<and> owner s' = owner s"
  using assms
  by (auto simp: lockFunds_def Let_def split: sum.splits if_splits prod.splits)

lemma other_Inr:
  "updateAttestationProvider c p s = Inr s' \<Longrightarrow> tasks s' = tasks s \<and> token s' = token s"
  "updateSchemaUID c u s = Inr s' \<Longrightarrow> tasks s' = tasks s \<and> token s' = token s"
  "emergencyWithdraw vm c s = Inr s' \<Longrightarrow> tasks s' = tasks s"
  by (auto simp: updateAttestationProvider_def updateSchemaUID_def emergencyWithdraw_def Let_def
       split: if_splits dest!: pay_out_Inr)

lemma new_transfers_same [simp]: "new_transfers s s = []"
  by (simp add: new_transfers_def)

lemma new_transfers_app:
  "transfer_log (token s') = transfer_log (token s) @ xs \<Longrightarrow> new_transfers s s' = xs"
  by (simp add: new_transfers_def)

subsection \<open>One transaction\<close>

text \<open>
  \<open>msg.sender\<close> is never \<open>address(0)\<close>; with that, a written task slot always has a
  non-zero agent and \<open>lockFunds\<close> cannot overwrite it.
\<close>

lemma step_wf:
  assumes "task_wf s" "msg_sender tx \<noteq> 0"
  shows "task_wf (apply_tx vm tx s)"
proof (cases "execute vm tx s")
  case (Inl e)
  then show ?thesis using assms by (simp add: apply_tx_def)
next
  case (Inr s')
  then have "task_wf s'"
    using assms
    by (cases "call tx")
       (auto simp: execute_def task_wf_def
             dest!: release_Inr refund_Inr dispute_Inr resolve_Inr lockFunds_Inr other_Inr)
  then show ?thesis using Inr by (simp add: apply_tx_def)
qed

lemma step_terminal:
  assumes "task_wf s" "terminal (status (tasks s t))"
  shows "tasks (apply_tx vm tx s) t = tasks s t \<and>
         (settles (call tx) t \<longrightarrow> new_transfers s (apply_tx vm tx s) = [])"
proof (cases "execute vm tx s")
  case (Inl e)
  then show ?thesis by (simp add: apply_tx_def)
next
  case (Inr s')
  then have "tasks s' t = tasks s t \<and> \<not> settles (call tx) t"
    using assms
    by (cases "call tx")
       (auto simp: execute_def task_wf_def terminal_def settles_def
             dest!: release_Inr refund_Inr dispute_Inr resolve_Inr lockFunds_Inr other_Inr)
  then show ?thesis using Inr by (simp add: apply_tx_def)
qed

lemma step_open:
  assumes "task_wf s" "\<not> terminal (status (tasks s t))"
  shows "(\<not> terminal (status (tasks (apply_tx vm tx s) t)) \<and>
           (settles (call tx) t \<longrightarrow> new_transfers s (apply_tx vm tx s) = []))
       \<or> (terminal (status (tasks (apply_tx vm tx s) t)) \<and> settles (call tx) t \<and>
           new_transfers s (apply_tx vm tx s) = expected_payouts vm (tasks (apply_tx vm tx s) t))"
proof (cases "execute vm tx s")
  case (Inl e)
  then show ?thesis using assms by (simp add: apply_tx_def)
next
  case (Inr s')
  then have "(\<not> terminal (status (tasks s' t)) \<and> \<not> settles (call tx) t)
       \<or> (terminal (status (tasks s' t)) \<and> settles (call tx) t \<and>
           new_transfers s s' = expected_payouts vm (tasks s' t))"
    using assms
    by (cases "call tx")
       (auto simp: execute_def task_wf_def terminal_def settles_def expected_payouts_def
             dest!: release_Inr refund_Inr dispute_Inr resolve_Inr lockFunds_Inr other_Inr
             intro: new_transfers_app split: if_splits)
  then show ?thesis using Inr by (auto simp add: apply_tx_def)
qed

subsection \<open>Runs\<close>

lemma run_wf:
  "task_wf s \<Longrightarrow> \<forall>tx\<in>set txs. msg_sender tx \<noteq> 0 \<Longrightarrow> task_wf (run vm txs s)"
  by (induction txs arbitrary: s) (auto intro: step_wf)

lemma run_append: "run vm (xs @ ys) s = run vm ys (run vm xs s)"
  by (induction xs arbitrary: s) auto

lemma trace_terminal:
  "task_wf s \<Longrightarrow> \<forall>tx\<in>set txs. msg_sender tx \<noteq> 0 \<Longrightarrow> terminal (status (tasks s t)) \<Longrightarrow>
     tasks (run vm txs s) t = tasks s t \<and> payouts vm t txs s = [] \<and>
     terminal_transitions vm t txs s = 0"
proof (induction txs arbitrary: s)
  case Nil
  then show ?case by simp
next
  case (Cons tx txs)
  have st: "tasks (apply_tx vm tx s) t = tasks s t"
    and nt: "settles (call tx) t \<longrightarrow> new_transfers s (apply_tx vm tx s) = []"
    using step_terminal [OF Cons.prems(1) Cons.prems(3)] by auto
  have wf': "task_wf (apply_tx vm tx s)"
    using Cons.prems by (auto intro: step_wf)
  have "terminal (status (tasks (apply_tx vm tx s) t))"
    using st Cons.prems(3) by simp
  from Cons.IH [OF wf' _ this] Cons.prems(2) st nt show ?case by auto
qed

lemma trace_open:
  "task_wf s \<Longrightarrow> \<forall>tx\<in>set txs. msg_sender tx \<noteq> 0 \<Longrightarrow> \<not> terminal (status (tasks s t)) \<Longrightarrow>
     payouts vm t txs s = expected_payouts vm (tasks (run vm txs s) t) \<and>
     terminal_transitions vm t txs s \<le> 1"
proof (induction txs arbitrary: s)
  case Nil
  then show ?case by (auto simp: expected_payouts_def terminal_def split: TaskStatus.splits)
next
  case (Cons tx txs)
  let ?s' = "apply_tx vm tx s"
  have wf': "task_wf ?s'"
    using Cons.prems by (auto intro: step_wf)
  have rest: "\<forall>tx\<in>set txs. msg_sender tx \<noteq> 0"
    using Cons.prems(2) by simp
  show ?case
  proof (cases "terminal (status (tasks ?s' t))")
    case True
    with step_open [OF Cons.prems(1) Cons.prems(3), of vm tx]
    have a: "settles (call tx) t" "new_transfers s ?s' = expected_payouts vm (tasks ?s' t)"
      by auto
    from trace_terminal [OF wf' rest True, of vm]
    show ?thesis using a by simp
  next
    case False
    with step_open [OF Cons.prems(1) Cons.prems(3), of vm tx]
    have a: "settles (call tx) t \<longrightarrow> new_transfers s ?s' = []"
      by auto
    from Cons.IH [OF wf' rest False] a False show ?thesis by auto
  qed
qed

lemma deployed_wf: "task_wf (deployed d a tk)"
  by (simp add: task_wf_def deployed_def zero_task_def)

lemma deployed_open: "\<not> terminal (status (tasks (deployed d a tk) t))"
  by (simp add: terminal_def deployed_def zero_task_def)

lemma run_terminal_fixed:
  assumes "task_wf s" "\<forall>tx\<in>set (pre @ post). msg_sender tx \<noteq> 0"
    "terminal (status (tasks (run vm pre s) t))"
  shows "tasks (run vm (pre @ post) s) t = tasks (run vm pre s) t"
proof -
  have wf: "task_wf (run vm pre s)"
    using assms(1,2) by (intro run_wf) auto
  have "\<forall>tx\<in>set post. msg_sender tx \<noteq> 0" using assms(2) by auto
  from trace_terminal [OF wf this assms(3), of vm] show ?thesis
    by (simp add: run_append)
qed

subsection \<open>Guards and the order of marking and paying\<close>

lemma guard_release: "status (tasks s t) \<noteq> Active \<Longrightarrow> isl (releaseWithProof vm c now t uid sg s)"
  by (simp add: releaseWithProof_def Let_def)

lemma guard_refund: "status (tasks s t) \<noteq> Active \<Longrightarrow> isl (refund vm c now t s)"
  by (simp add: refund_def Let_def)

lemma guard_resolve: "status (tasks s t) \<noteq> Disputed \<Longrightarrow> isl (resolveDispute vm c t rel s)"
  by (simp add: resolveDispute_def Let_def)

lemma release_marks_first:
  "releaseWithProof vm c now t uid sg s = Inr s' \<Longrightarrow>
     \<exists>s2. pay_out vm (set_status s t Completed) (serviceProvider (tasks s t)) (amount (tasks s t)) = Inr s2
        \<and> s' = s2\<lparr>events := events s2 @ [TaskCompleted t (serviceProvider (tasks s t)) uid]\<rparr>"
  by (auto simp: releaseWithProof_def Let_def split: if_splits sum.splits)

lemma refund_marks_first:
  "refund vm c now t s = Inr s' \<Longrightarrow>
     \<exists>s2. pay_out vm (set_status s t Refunded) (agent (tasks s t)) (amount (tasks s t)) = Inr s2
        \<and> s' = s2\<lparr>events := events s2 @ [TaskRefunded t (agent (tasks s t)) (amount (tasks s t))]\<rparr>"
  by (auto simp: refund_def Let_def split: if_splits sum.splits)

lemma resolve_marks_first:
  "resolveDispute vm c t rel s = Inr s' \<Longrightarrow>
     \<exists>s2. pay_out vm (set_status s t (if rel then Completed else Refunded))
             (if rel then serviceProvider (tasks s t) else agent (tasks s t)) (amount (tasks s t)) = Inr s2
        \<and> tasks s' = tasks s2 \<and> token s' = token s2"
  by (auto simp: resolveDispute_def Let_def split: if_splits sum.splits)

lemma set_status_marked:
  "status (tasks (set_status s t st) t) = st \<and> token (set_status s t st) = token s"
  by (simp add: set_status_def)

lemma release_marks_status:
  assumes "releaseWithProof vm c now t uid sg s = Inr s'"
  shows "\<exists>s1 s2. status (tasks s1 t) = Completed \<and> token s1 = token s \<and>
        pay_out vm s1 (serviceProvider (tasks s t)) (amount (tasks s t)) = Inr s2 \<and>
        tasks s' = tasks s2 \<and> token s' = token s2"
proof -
  from release_marks_first [OF assms] obtain s2 where
    "pay_out vm (set_status s t Completed) (serviceProvider (tasks s t)) (amount (tasks s t)) = Inr s2"
    "tasks s' = tasks s2 \<and> token s' = token s2"
    by auto
  then show ?thesis using set_status_marked [of s t Completed] by blast
qed

lemma refund_marks_status:
  assumes "refund vm c now t s = Inr s'"
  shows "\<exists>s1 s2. status (tasks s1 t) = Refunded \<and> token s1 = token s \<and>
        pay_out vm s1 (agent (tasks s t)) (amount (tasks s t)) = Inr s2 \<and>
        tasks s' = tasks s2 \<and> token s' = token s2"
proof -
  from refund_marks_first [OF assms] obtain s2 where
    "pay_out vm (set_status s t Refunded) (agent (tasks s t)) (amount (tasks s t)) = Inr s2"
    "tasks s' = tasks s2 \<and> token s' = token s2"
    by auto
  then show ?thesis using set_status_marked [of s t Refunded] by blast
qed

lemma resolve_marks_status:
  assumes "resolveDispute vm c t rel s = Inr s'"
  shows "\<exists>s1 s2. status (tasks s1 t) = (if rel then Completed else Refunded) \<and> token s1 = token s \<and>
        pay_out vm s1 (if rel then serviceProvider (tasks s t) else agent (tasks s t))
          (amount (tasks s t)) = Inr s2 \<and>
        tasks s' = tasks s2 \<and> token s' = token s2"
proof -
  from resolve_marks_first [OF assms] obtain s2 where
    "pay_out vm (set_status s t (if rel then Completed else Refunded))
       (if rel then serviceProvider (tasks s t) else agent (tasks s t)) (amount (tasks s t)) = Inr s2"
    "tasks s' = tasks s2 \<and> token s' = token s2"
    by auto
  then show ?thesis
    using set_status_marked [of s t "if rel then Completed else Refunded"] by blast
qed

lemma pay_out_ok:
  assumes "to \<noteq> 0" "this vm \<noteq> 0" "amt \<le> balances (token s) (this vm)"
  shows "\<exists>s'. pay_out vm s to amt = Inr s'"
  using assms
  by (simp add: pay_out_def token_transfer_def token_transfer_internal_def Let_def)

lemma set_status_token: "token (set_status s t st) = token s"
  by (simp add: set_status_def)


lemma lockFunds_atomic:
  assumes "lockFunds vm c now provider amt dl descr autoR s = Inr s'"
  shows "status (tasks s' (task_hash vm c provider amt now descr)) = Active \<and>
         agent (tasks s' (task_hash vm c provider amt now descr)) = c \<and>
         amount (tasks s' (task_hash vm c provider amt now descr)) = amt \<and>
         new_transfers s s' = [(c, this vm, amt)]"
  using assms
  by (auto simp: lockFunds_def token_transferFrom_def token_approve_internal_def
        token_transfer_internal_def new_transfers_def Let_def
        split: sum.splits if_splits prod.splits)

subsection \<open>Claim C1: one terminal transition, one payout\<close>

text \<open>
  Claim C1. Take any run of the contract from deployment, made of any calls (including
  \<open>lockFunds\<close>, \<open>dispute\<close>, the owner's functions and \<open>emergencyWithdraw\<close>) by any
  senders (\<open>msg.sender\<close> is never \<open>address(0)\<close>), and any task \<open>t\<close>. Then: the
  status of \<open>t\<close> changes into \<open>Completed\<close> or \<open>Refunded\<close> at most once in the run; the token transfers made by the calls that settle
  \<open>t\<close> are exactly one transfer of the task's amount to its provider if the task ends
  \<open>Completed\<close>, exactly one to its agent if it ends \<open>Refunded\<close>, and none otherwise, so
  never one to each; once the task is terminal, no later transaction changes its record,
  so it never returns to \<open>Active\<close>. In every state, \<open>releaseWithProof\<close> and \<open>refund\<close>
  reject a task that is not \<open>Active\<close> and \<open>resolveDispute\<close> rejects one that is not
  \<open>Disputed\<close>; and when one of the three succeeds, the token transfer was made on a state
  in which the task already carried its new status, the token being untouched until then.
  A successful \<open>lockFunds\<close> records the \<open>Active\<close> task and takes its amount from the
  agent in the same transaction.
\<close>

theorem escrow_settles_once:
  assumes "\<forall>tx\<in>set txs. msg_sender tx \<noteq> 0"
  shows "terminal_transitions vm t txs (deployed d a tk) \<le> 1 \<and>
         payouts vm t txs (deployed d a tk) =
           expected_payouts vm (tasks (run vm txs (deployed d a tk)) t) \<and>
         (\<forall>pre post. txs = pre @ post \<and> terminal (status (tasks (run vm pre (deployed d a tk)) t)) \<longrightarrow>
            tasks (run vm txs (deployed d a tk)) t = tasks (run vm pre (deployed d a tk)) t) \<and>
         (status (tasks s t) \<noteq> Active \<longrightarrow>
            isl (releaseWithProof vm c now t uid sg s) \<and> isl (refund vm c now t s)) \<and>
         (status (tasks s t) \<noteq> Disputed \<longrightarrow> isl (resolveDispute vm c t rel s)) \<and>
         (\<forall>s'. releaseWithProof vm c now t uid sg s = Inr s' \<longrightarrow>
            (\<exists>s1 s2. status (tasks s1 t) = Completed \<and> token s1 = token s \<and>
               pay_out vm s1 (serviceProvider (tasks s t)) (amount (tasks s t)) = Inr s2 \<and>
               tasks s' = tasks s2 \<and> token s' = token s2)) \<and>
         (\<forall>s'. refund vm c now t s = Inr s' \<longrightarrow>
            (\<exists>s1 s2. status (tasks s1 t) = Refunded \<and> token s1 = token s \<and>
               pay_out vm s1 (agent (tasks s t)) (amount (tasks s t)) = Inr s2 \<and>
               tasks s' = tasks s2 \<and> token s' = token s2)) \<and>
         (\<forall>s'. resolveDispute vm c t rel s = Inr s' \<longrightarrow>
            (\<exists>s1 s2. status (tasks s1 t) = (if rel then Completed else Refunded) \<and>
               token s1 = token s \<and>
               pay_out vm s1 (if rel then serviceProvider (tasks s t) else agent (tasks s t))
                 (amount (tasks s t)) = Inr s2 \<and>
               tasks s' = tasks s2 \<and> token s' = token s2)) \<and>
         (\<forall>s'. lockFunds vm c now provider amt dl descr autoR s = Inr s' \<longrightarrow>
            status (tasks s' (task_hash vm c provider amt now descr)) = Active \<and>
            agent (tasks s' (task_hash vm c provider amt now descr)) = c \<and>
            amount (tasks s' (task_hash vm c provider amt now descr)) = amt \<and>
            new_transfers s s' = [(c, this vm, amt)])"
proof -
  let ?s0 = "deployed d a tk"
  have 1: "terminal_transitions vm t txs ?s0 \<le> 1"
    and 2: "payouts vm t txs ?s0 = expected_payouts vm (tasks (run vm txs ?s0) t)"
    using trace_open [OF deployed_wf assms deployed_open] by auto
  have 3: "\<forall>pre post. txs = pre @ post \<and> terminal (status (tasks (run vm pre ?s0) t)) \<longrightarrow>
            tasks (run vm txs ?s0) t = tasks (run vm pre ?s0) t"
    using run_terminal_fixed [OF deployed_wf] assms by blast
  have 4: "status (tasks s t) \<noteq> Active \<longrightarrow>
            isl (releaseWithProof vm c now t uid sg s) \<and> isl (refund vm c now t s)"
    by (simp add: guard_release guard_refund)
  have 5: "status (tasks s t) \<noteq> Disputed \<longrightarrow> isl (resolveDispute vm c t rel s)"
    by (simp add: guard_resolve)
  have 6: "\<forall>s'. releaseWithProof vm c now t uid sg s = Inr s' \<longrightarrow>
            (\<exists>s1 s2. status (tasks s1 t) = Completed \<and> token s1 = token s \<and>
               pay_out vm s1 (serviceProvider (tasks s t)) (amount (tasks s t)) = Inr s2 \<and>
               tasks s' = tasks s2 \<and> token s' = token s2)"
    using release_marks_status by blast
  have 7: "\<forall>s'. refund vm c now t s = Inr s' \<longrightarrow>
            (\<exists>s1 s2. status (tasks s1 t) = Refunded \<and> token s1 = token s \<and>
               pay_out vm s1 (agent (tasks s t)) (amount (tasks s t)) = Inr s2 \<and>
               tasks s' = tasks s2 \<and> token s' = token s2)"
    using refund_marks_status by blast
  have 8: "\<forall>s'. resolveDispute vm c t rel s = Inr s' \<longrightarrow>
            (\<exists>s1 s2. status (tasks s1 t) = (if rel then Completed else Refunded) \<and>
               token s1 = token s \<and>
               pay_out vm s1 (if rel then serviceProvider (tasks s t) else agent (tasks s t))
                 (amount (tasks s t)) = Inr s2 \<and>
               tasks s' = tasks s2 \<and> token s' = token s2)"
    using resolve_marks_status by blast
  have 9: "\<forall>s'. lockFunds vm c now provider amt dl descr autoR s = Inr s' \<longrightarrow>
            status (tasks s' (task_hash vm c provider amt now descr)) = Active \<and>
            agent (tasks s' (task_hash vm c provider amt now descr)) = c \<and>
            amount (tasks s' (task_hash vm c provider amt now descr)) = amt \<and>
            new_transfers s s' = [(c, this vm, amt)]"
    using lockFunds_atomic by blast
  show ?thesis
    using 1 2 3 4 5 6 7 8 9 by - (intro conjI, assumption+)
qed

text \<open>
  Witness for C1: the agent locks 500, the provider releases at the deadline with a
  non-zero attestation id, and the agent then asks for a refund. The task ends
  \<open>Completed\<close> and the only payout is 500 to the provider.
\<close>

theorem escrow_settles_once_witness:
  "status (tasks (run vm0 txs0 (deployed 9 8 token0)) 7) = Completed \<and>
   payouts vm0 7 txs0 (deployed 9 8 token0) = [(100, 2, 500)] \<and>
   terminal_transitions vm0 7 txs0 (deployed 9 8 token0) \<le> 1"
proof -
  have snd: "\<forall>tx\<in>set txs0. msg_sender tx \<noteq> 0"
    by (simp add: txs0_def)
  have fin: "tasks (run vm0 txs0 (deployed 9 8 token0)) 7 =
     \<lparr>agent = 1, serviceProvider = 2, amount = 500, deadline = 10, status = Completed,
      taskId = 7, taskDescription = ''job'', autoRefund = True\<rparr>"
    by (simp add: txs0_def vm0_def token0_def contract_defs)
  note th = escrow_settles_once [OF snd, of vm0 7 9 8 token0]
  have a: "terminal_transitions vm0 7 txs0 (deployed 9 8 token0) \<le> 1"
    by (rule th [THEN conjunct1])
  have b: "payouts vm0 7 txs0 (deployed 9 8 token0) =
      expected_payouts vm0 (tasks (run vm0 txs0 (deployed 9 8 token0)) 7)"
    by (rule th [THEN conjunct2, THEN conjunct1])
  have c: "this vm0 = 100"
    by (simp add: vm0_def)
  show ?thesis
    using a b by (simp add: fin expected_payouts_def c)
qed

subsection \<open>Claim C5: the refund guard\<close>

text \<open>
  Counterexample for C5: the API route's \<open>PUT\<close> on an \<open>ACTIVE\<close> row with
  \<open>autoRefund = false\<close>, one millisecond after its deadline. The request names no caller
  and the handler does not read \<open>autoRefund\<close>: the row is marked \<open>REFUNDED\<close>, although
  neither "the caller is the funder" nor "autoRefund is set" holds.
\<close>

theorem route_refund_unguarded_counterexample:
  "e_autoRefund row0 = False \<and>
   route_PUT 10001 (Some ''0x07'') db0 =
     (Ok200 (row0\<lparr>e_status := REFUNDED, e_refundedAt := Some 10001\<rparr>)
        ''Escrow funds refunded to agent'',
      \<lparr>escrowTransaction =
         [''0x07'' \<mapsto> row0\<lparr>e_status := REFUNDED, e_refundedAt := Some 10001\<rparr>],
       webhookEvent = [''escrow.refunded'']\<rparr>)"
  by (simp add: route_PUT_def falsy_def db0_def row0_def Let_def)

text \<open>
  Claim C5, amended. On the contract, for an existing \<open>Active\<close> task whose amount the
  contract holds: \<open>refund\<close> succeeds exactly when \<open>now > deadline\<close> and the caller is the
  agent or \<open>autoRefund\<close> is set; a successful refund sets the status to \<open>Refunded\<close> and
  makes exactly one token transfer, of the task's amount from the contract to the agent;
  at or before the deadline a refund by the agent, or by anyone when \<open>autoRefund\<close> is set
  (Scenario B), fails with \<open>DeadlineNotPassed\<close>. On the API route, for an \<open>ACTIVE\<close> row:
  \<open>PUT\<close> marks the row \<open>REFUNDED\<close> exactly when \<open>now > deadline\<close>, whoever asks and
  whatever \<open>autoRefund\<close> says, and otherwise answers "Deadline has not passed yet" and
  changes nothing; the route records the refund and moves no funds.
\<close>

theorem refund_guard:
  assumes "agent (tasks s t) \<noteq> 0" "status (tasks s t) = Active"
    and "amount (tasks s t) \<le> balances (token s) (this vm)" "this vm \<noteq> 0"
    and "escrowTransaction db tid = Some row" "e_status row = ACTIVE" "tid \<noteq> []"
  shows "((\<exists>s'. refund vm c now t s = Inr s') \<longleftrightarrow>
            deadline (tasks s t) < now \<and> (c = agent (tasks s t) \<or> autoRefund (tasks s t))) \<and>
         (\<forall>s'. refund vm c now t s = Inr s' \<longrightarrow>
            tasks s' = (tasks s)(t := (tasks s t)\<lparr>status := Refunded\<rparr>) \<and>
            new_transfers s s' = [(this vm, agent (tasks s t), amount (tasks s t))]) \<and>
         (now \<le> deadline (tasks s t) \<and> (c = agent (tasks s t) \<or> autoRefund (tasks s t)) \<longrightarrow>
            refund vm c now t s = Inl DeadlineNotPassed) \<and>
         (route_PUT db_now (Some tid) db =
            (if e_deadline row < db_now
             then (Ok200 (row\<lparr>e_status := REFUNDED, e_refundedAt := Some db_now\<rparr>)
                     ''Escrow funds refunded to agent'',
                   db\<lparr>escrowTransaction := (escrowTransaction db)
                          (tid \<mapsto> row\<lparr>e_status := REFUNDED, e_refundedAt := Some db_now\<rparr>),
                      webhookEvent := webhookEvent db @ [''escrow.refunded'']\<rparr>)
             else (ErrorJson 400 ''Deadline has not passed yet'', db)))"
proof -
  have pay: "\<exists>s2. pay_out vm (set_status s t Refunded) (agent (tasks s t)) (amount (tasks s t)) = Inr s2"
    using assms(1-4) by (intro pay_out_ok) (simp_all add: set_status_token)
  have 1: "(\<exists>s'. refund vm c now t s = Inr s') \<longleftrightarrow>
            deadline (tasks s t) < now \<and> (c = agent (tasks s t) \<or> autoRefund (tasks s t))"
  proof
    assume "\<exists>s'. refund vm c now t s = Inr s'"
    then show "deadline (tasks s t) < now \<and> (c = agent (tasks s t) \<or> autoRefund (tasks s t))"
      using refund_Inr by blast
  next
    assume "deadline (tasks s t) < now \<and> (c = agent (tasks s t) \<or> autoRefund (tasks s t))"
    then show "\<exists>s'. refund vm c now t s = Inr s'"
      using assms(1,2) pay by (auto simp: refund_def Let_def)
  qed
  have 2: "\<forall>s'. refund vm c now t s = Inr s' \<longrightarrow>
            tasks s' = (tasks s)(t := (tasks s t)\<lparr>status := Refunded\<rparr>) \<and>
            new_transfers s s' = [(this vm, agent (tasks s t), amount (tasks s t))]"
    using refund_Inr new_transfers_app by blast
  have 3: "now \<le> deadline (tasks s t) \<and> (c = agent (tasks s t) \<or> autoRefund (tasks s t)) \<longrightarrow>
            refund vm c now t s = Inl DeadlineNotPassed"
    using assms(1,2) by (auto simp: refund_def Let_def)
  have 4: "route_PUT db_now (Some tid) db =
            (if e_deadline row < db_now
             then (Ok200 (row\<lparr>e_status := REFUNDED, e_refundedAt := Some db_now\<rparr>)
                     ''Escrow funds refunded to agent'',
                   db\<lparr>escrowTransaction := (escrowTransaction db)
                          (tid \<mapsto> row\<lparr>e_status := REFUNDED, e_refundedAt := Some db_now\<rparr>),
                      webhookEvent := webhookEvent db @ [''escrow.refunded'']\<rparr>)
             else (ErrorJson 400 ''Deadline has not passed yet'', db))"
    using assms(5-7) by (simp add: route_PUT_def falsy_def Let_def)
  show ?thesis
    using 1 2 3 4 by - (intro conjI, assumption+)
qed

text \<open>
  Witness for C5 (Scenario B): with \<open>autoRefund = true\<close>, a bystander's refund on the
  contract fails with \<open>DeadlineNotPassed\<close> at time 5 and succeeds at time 11; the route
  refuses the row at half its deadline and refunds it just after the deadline.
\<close>

theorem refund_guard_witness:
  "refund vm0 3 5 7 (locked_state True) = Inl DeadlineNotPassed \<and>
   (\<exists>s'. refund vm0 3 11 7 (locked_state True) = Inr s') \<and>
   route_PUT 5000 (Some ''0x07'') db0 = (ErrorJson 400 ''Deadline has not passed yet'', db0) \<and>
   fst (route_PUT 10001 (Some ''0x07'') db0) =
     Ok200 (row0\<lparr>e_status := REFUNDED, e_refundedAt := Some 10001\<rparr>) ''Escrow funds refunded to agent''"
proof -
  have a: "agent (tasks (locked_state True) 7) \<noteq> 0" "status (tasks (locked_state True) 7) = Active"
    "amount (tasks (locked_state True) 7) \<le> balances (token (locked_state True)) (this vm0)"
    "this vm0 \<noteq> 0"
    "escrowTransaction db0 ''0x07'' = Some row0" "e_status row0 = ACTIVE" "''0x07'' \<noteq> []"
    by (simp_all add: locked_state_def vm0_def db0_def row0_def)
  have b: "deadline (tasks (locked_state True) 7) = 10" "autoRefund (tasks (locked_state True) 7)"
    "e_deadline row0 = 10000"
    by (simp_all add: locked_state_def row0_def)
  note th = refund_guard [OF a]
  have "refund vm0 3 5 7 (locked_state True) = Inl DeadlineNotPassed"
    using th [of 3 5, THEN conjunct2, THEN conjunct2, THEN conjunct1] b by simp
  moreover have "\<exists>s'. refund vm0 3 11 7 (locked_state True) = Inr s'"
    using th [of 3 11, THEN conjunct1] b by simp
  moreover have "route_PUT 5000 (Some ''0x07'') db0 = (ErrorJson 400 ''Deadline has not passed yet'', db0)"
    using th [of _ _ 5000, THEN conjunct2, THEN conjunct2, THEN conjunct2] b by simp
  moreover have "fst (route_PUT 10001 (Some ''0x07'') db0) =
     Ok200 (row0\<lparr>e_status := REFUNDED, e_refundedAt := Some 10001\<rparr>) ''Escrow funds refunded to agent''"
    using th [of _ _ 10001, THEN conjunct2, THEN conjunct2, THEN conjunct2] b by simp
  ultimately show ?thesis by simp
qed

subsection \<open>Claim C6: the deadline instant\<close>




subsection \<open>Claim C8: attestations that do not verify\<close>

text \<open>
  Counterexample for C8: a release of task 7 before its deadline with a three-byte
  signature. \<open>_recoverSigner\<close> reverts with "Invalid signature length"; the failure is not
  "Invalid attestation".
\<close>

theorem malformed_signature_counterexample:
  "releaseWithProof vm0 2 5 7 5 [1, 2, 3] (locked_state True) = Inl InvalidSignatureLength"
  by (simp add: releaseWithProof_def verifyAttestation_def recoverSigner_def locked_state_def)

text \<open>
  Claim C8, amended. For an existing \<open>Active\<close> task not past its deadline:
  \<open>releaseWithProof\<close> fails with \<open>InvalidAttestation\<close> whenever \<open>_verifyAttestation\<close>
  returns false, in particular for the empty attestation (zero id, no signature) and for
  a 65-byte signature whose recovered signer is not the attestation provider; it fails
  with "Invalid signature length" for a non-empty signature that is not 65 bytes long;
  and whenever the attestation does not verify, the transaction fails and leaves the
  whole state as it was: the task is still \<open>Active\<close> and no token has moved. On the API
  route, a \<open>POST\<close> without an attestation id is refused and the table is unchanged.
\<close>

theorem invalid_attestation_rejected:
  assumes "agent (tasks s t) \<noteq> 0" "status (tasks s t) = Active" "now \<le> deadline (tasks s t)"
  shows "(verifyAttestation vm s t uid sg (serviceProvider (tasks s t)) = Inr False \<longrightarrow>
            releaseWithProof vm c now t uid sg s = Inl InvalidAttestation) \<and>
         (sg \<noteq> [] \<and> length sg \<noteq> 65 \<longrightarrow>
            releaseWithProof vm c now t uid sg s = Inl InvalidSignatureLength) \<and>
         releaseWithProof vm c now t 0 [] s = Inl InvalidAttestation \<and>
         (length sg = 65 \<and>
          ecrecover vm (eth_signed_message_hash vm
             (message_hash vm t uid (serviceProvider (tasks s t)))) sg \<noteq> attestationProvider s \<longrightarrow>
            releaseWithProof vm c now t uid sg s = Inl InvalidAttestation) \<and>
         (verifyAttestation vm s t uid sg (serviceProvider (tasks s t)) \<noteq> Inr True \<longrightarrow>
            isl (releaseWithProof vm c now t uid sg s) \<and>
            apply_tx vm \<lparr>msg_sender = c, block_timestamp = now, call = ReleaseWithProof t uid sg\<rparr> s = s) \<and>
         (falsy uid' \<longrightarrow>
            route_POST db_now tid' uid' sig' db = (ErrorJson 400 ''Missing taskId or attestationUID'', db))"
proof -
  have 1: "verifyAttestation vm s t uid sg (serviceProvider (tasks s t)) = Inr False \<longrightarrow>
            releaseWithProof vm c now t uid sg s = Inl InvalidAttestation"
    using assms by (simp add: releaseWithProof_def Let_def)
  have 2: "sg \<noteq> [] \<and> length sg \<noteq> 65 \<longrightarrow>
            releaseWithProof vm c now t uid sg s = Inl InvalidSignatureLength"
    using assms by (simp add: releaseWithProof_def verifyAttestation_def recoverSigner_def Let_def)
  have 3: "releaseWithProof vm c now t 0 [] s = Inl InvalidAttestation"
    using assms by (simp add: releaseWithProof_def verifyAttestation_def Let_def)
  have 4: "length sg = 65 \<and>
          ecrecover vm (eth_signed_message_hash vm
             (message_hash vm t uid (serviceProvider (tasks s t)))) sg \<noteq> attestationProvider s \<longrightarrow>
            releaseWithProof vm c now t uid sg s = Inl InvalidAttestation"
    using assms by (auto simp: releaseWithProof_def verifyAttestation_def recoverSigner_def Let_def)
  have 5: "verifyAttestation vm s t uid sg (serviceProvider (tasks s t)) \<noteq> Inr True \<longrightarrow>
            isl (releaseWithProof vm c now t uid sg s) \<and>
            apply_tx vm \<lparr>msg_sender = c, block_timestamp = now, call = ReleaseWithProof t uid sg\<rparr> s = s"
    using assms
    by (auto simp: apply_tx_def execute_def releaseWithProof_def Let_def split: sum.splits)
  have 6: "falsy uid' \<longrightarrow>
            route_POST db_now tid' uid' sig' db = (ErrorJson 400 ''Missing taskId or attestationUID'', db)"
    by (simp add: route_POST_def)
  show ?thesis
    using 1 2 3 4 5 6 by - (intro conjI, assumption+)
qed

text \<open>
  Witness for C8 (Scenario C): the empty attestation on task 7 fails with
  \<open>InvalidAttestation\<close> and the state is unchanged.
\<close>

theorem invalid_attestation_rejected_witness:
  "releaseWithProof vm0 2 5 7 0 [] (locked_state True) = Inl InvalidAttestation \<and>
   apply_tx vm0 \<lparr>msg_sender = 2, block_timestamp = 5, call = ReleaseWithProof 7 0 []\<rparr>
      (locked_state True) = locked_state True"
proof -
  have a: "agent (tasks (locked_state True) 7) \<noteq> 0" "status (tasks (locked_state True) 7) = Active"
    "5 \<le> deadline (tasks (locked_state True) 7)"
    by (simp_all add: locked_state_def)
  have b: "verifyAttestation vm0 (locked_state True) 7 0 [] (serviceProvider (tasks (locked_state True) 7)) \<noteq> Inr True"
    by (simp add: verifyAttestation_def)
  note th = invalid_attestation_rejected [OF a]
  have "releaseWithProof vm0 2 5 7 0 [] (locked_state True) = Inl InvalidAttestation"
    by (rule th [THEN conjunct2, THEN conjunct2, THEN conjunct1])
  moreover have "apply_tx vm0 \<lparr>msg_sender = 2, block_timestamp = 5, call = ReleaseWithProof 7 0 []\<rparr>
      (locked_state True) = locked_state True"
    using th [of vm0 0 "[]" 2, THEN conjunct2, THEN conjunct2, THEN conjunct2, THEN conjunct2, THEN conjunct1] b
    by simp
  ultimately show ?thesis by simp
qed

section \<open>Session keys\<close>

lemma approve_sent:
  "approve oc c spender amnt = (Inr h, sent) \<Longrightarrow>
     \<exists>acct v. account c = Some acct \<and> toWei amnt = Inr v \<and> uint256 v \<and>
        sent = [WriteApprove acct spender v]"
  by (auto simp: approve_def writeContract_def split: option.splits sum.splits if_splits write_outcome.splits)

lemma approve_fail_sent: "approve oc c spender amnt = (Inl e, sent) \<Longrightarrow> sent = []"
  by (auto simp: approve_def writeContract_def split: option.splits sum.splits if_splits write_outcome.splits)

lemma authorize_key:
  assumes "authorizeAgent now gk sa at oc c opts = (Inr k, c', sent)"
  shows "remainingLimit k = spendLimit k \<and> 0 \<le> spendLimit k \<and> toWei (opt_spendLimit opts) = Inr (spendLimit k)"
  using assms
  by (auto simp: authorizeAgent_def Let_def uint256_def split: sum.splits if_splits prod.splits
           dest!: approve_sent)

lemma pay_step:
  assumes "sendPaymentWithSessionKey sg env c to amnt k = (res, k')"
  shows "(debit_made res \<longrightarrow> 0 \<le> amnt \<and> amnt \<le> remainingLimit k \<and>
            k' = k\<lparr>remainingLimit := remainingLimit k - amnt\<rparr>) \<and>
         (\<not> debit_made res \<longrightarrow> k' = k)"
  using assms
  by (auto simp: sendPaymentWithSessionKey_def writeContract_def uint256_def Let_def
           split: if_splits option.splits sum.splits write_outcome.splits receipt_outcome.splits)

lemma run_payments_inv:
  "run_payments sg c ps k = (k', ds) \<Longrightarrow> 0 \<le> remainingLimit k \<Longrightarrow>
     remainingLimit k' = remainingLimit k - sum_list ds \<and> 0 \<le> remainingLimit k' \<and>
     0 \<le> sum_list ds \<and> spendLimit k' = spendLimit k"
proof (induction ps arbitrary: k k' ds)
  case Nil
  then show ?case by simp
next
  case (Cons p ps)
  obtain res k1 where s1: "sendPaymentWithSessionKey sg (p_env p) c (p_to p) (p_amount p) k = (res, k1)"
    by (cases "sendPaymentWithSessionKey sg (p_env p) c (p_to p) (p_amount p) k") auto
  obtain k2 ds2 where s2: "run_payments sg c ps k1 = (k2, ds2)"
    by (cases "run_payments sg c ps k1") auto
  from Cons.prems(1) s1 s2
  have k': "k' = k2" and ds: "ds = (if debit_made res then [p_amount p] else []) @ ds2"
    by simp_all
  show ?case
  proof (cases "debit_made res")
    case True
    with pay_step [OF s1]
    have a: "0 \<le> p_amount p" "p_amount p \<le> remainingLimit k"
      and k1: "k1 = k\<lparr>remainingLimit := remainingLimit k - p_amount p\<rparr>"
      by auto
    have "0 \<le> remainingLimit k1" using a k1 by simp
    from Cons.IH [OF s2 this] a k1 show ?thesis
      by (simp add: k' ds True)
  next
    case False
    with pay_step [OF s1] have "k1 = k" by simp
    with Cons.IH [OF s2] Cons.prems(2) show ?thesis
      by (simp add: k' ds False)
  qed
qed

lemma payment_stages:
  "\<exists>r k1 t1. payment_submitted (submit env) (payment_start sg (now_ms env) c to amnt k) k = (t1, k1) \<and>
     payment_mined (receipt env) (end_ms env) t1 = Finished r \<and>
     sendPaymentWithSessionKey sg env c to amnt k = (r, k1)"
  by (auto simp: pay_defs payment_start_def payment_submitted_def payment_mined_def
           split: option.splits sum.splits write_outcome.splits receipt_outcome.splits)

subsection \<open>Claim C2: the spend bound\<close>

text \<open>
  Counterexample for C2: \<open>authorizeAgent\<close> returns a key for 1000 tokens; two payments
  of 600 tokens are started together. Both pass the limit check, both are confirmed and
  debited: the debits sum to 1200 tokens, above \<open>spendLimit\<close>, and \<open>remainingLimit\<close> is
  200 tokens below zero.
\<close>

theorem concurrent_spend_bound_counterexample:
  "authorizeAgent 1000000 7 1007 ''0x3ef'' (Accepted 4) client_new scenario_options =
      (Inr scenario_key, client_new\<lparr>sessionKeys := [''agent'' \<mapsto> scenario_key]\<rparr>,
       [WriteApprove 1 1007 1000000000]) \<and>
   spendLimit scenario_key = 1000000000 \<and>
   two_concurrent_payments example_signer client_new scenario_key
       env_confirmed 2 600000000 env_confirmed 3 600000000 =
     (Finished (Inr \<lparr>r_hash = 99, r_from = 1, r_to = 2, r_amount = 600000000,
           r_status = CONFIRMED, r_timestamp = 1501, r_blockNumber = 12\<rparr>),
      Finished (Inr \<lparr>r_hash = 99, r_from = 1, r_to = 3, r_amount = 600000000,
           r_status = CONFIRMED, r_timestamp = 1501, r_blockNumber = 12\<rparr>),
      scenario_key\<lparr>remainingLimit := - 200000000\<rparr>)"
  by (simp add: authorizeAgent_def approve_def toWei_1000 getExpirationTimestamp_def
        two_concurrent_payments_def payment_start_def payment_submitted_def payment_mined_def
        pay_defs fixtures client_new_def scenario_options_def scenario_key_def)

text \<open>
  Claim C2, amended. Let \<open>authorizeAgent\<close> return a session key, and let any sequence of
  session-key payments be made with it one after another, each finished before the next
  is started. The key starts with \<open>remainingLimit = spendLimit\<close>; the amounts of the
  payments that debited the key sum to at most \<open>spendLimit\<close>; afterwards
  \<open>remainingLimit = spendLimit\<close> minus that sum, and \<open>0 \<le> remainingLimit \<le> spendLimit\<close>.
  As every prefix of a sequence is a sequence, this holds after each payment.
\<close>

theorem session_spend_bound:
  assumes "authorizeAgent now gk sa at oc c opts = (Inr k, c', sent)"
    and "run_payments sg cl ps k = (k', ds)"
  shows "remainingLimit k = spendLimit k \<and> sum_list ds \<le> spendLimit k \<and>
         remainingLimit k' = spendLimit k - sum_list ds \<and>
         0 \<le> remainingLimit k' \<and> remainingLimit k' \<le> spendLimit k \<and> spendLimit k' = spendLimit k"
proof -
  from authorize_key [OF assms(1)]
  have k: "remainingLimit k = spendLimit k" "0 \<le> spendLimit k" by auto
  then have "0 \<le> remainingLimit k" by simp
  from run_payments_inv [OF assms(2) this] k show ?thesis by auto
qed

text \<open>
  Witness for C2 (Scenario A): a key for 1000 tokens; a payment of 400 tokens is
  confirmed, one of 700 is refused, one of 100 is mined but reverted. The debits are 400
  and 100 tokens and 500 tokens remain.
\<close>

theorem session_spend_bound_witness:
  "run_payments example_signer client_new scenario_payments scenario_key =
     (scenario_key\<lparr>remainingLimit := 500000000\<rparr>, [400000000, 100000000]) \<and>
   sum_list [400000000, 100000000] \<le> spendLimit scenario_key \<and>
   (500000000::int) = spendLimit scenario_key - sum_list [400000000, 100000000]"
proof -
  have auth: "authorizeAgent 1000000 7 1007 ''0x3ef'' (Accepted 4) client_new scenario_options =
      (Inr scenario_key, client_new\<lparr>sessionKeys := [''agent'' \<mapsto> scenario_key]\<rparr>,
       [WriteApprove 1 1007 1000000000])"
    by (simp add: authorizeAgent_def approve_def writeContract_def uint256_def toWei_1000
          getExpirationTimestamp_def Let_def client_new_def scenario_options_def scenario_key_def)
  have run: "run_payments example_signer client_new scenario_payments scenario_key =
     (scenario_key\<lparr>remainingLimit := 500000000\<rparr>, [400000000, 100000000])"
    by (simp add: scenario_payments_def scenario_key_def client_new_def pay_defs fixtures)
  from session_spend_bound [OF auth run] run show ?thesis by simp
qed

subsection \<open>Claim C3: when a debit is accepted\<close>

text \<open>
  Counterexample for C3: the key \<open>agent\<close> is revoked (the allowance-zeroing transaction is
  sent and the key leaves the client's map); a payment of 80 with the revoked key object
  still passes every check of the client and debits the key. No check for revocation
  exists.
\<close>

theorem revoked_key_debit_counterexample:
  "revokeSessionKey (Accepted 5) client0 ''agent'' = (Inr 5, client0_revoked, [WriteApprove 1 1007 0]) \<and>
   sessionKeys client0_revoked ''agent'' = None \<and>
   sendPaymentWithSessionKey example_signer env_confirmed client0_revoked 2 80 key0 =
     (Inr \<lparr>r_hash = 99, r_from = 1, r_to = 2, r_amount = 80, r_status = CONFIRMED,
           r_timestamp = 1501, r_blockNumber = 12\<rparr>,
      key0\<lparr>remainingLimit := 20\<rparr>)"
  by (simp add: revokeSessionKey_def approve_def toWei_zero pay_defs fixtures)

text \<open>
  Claim C3, amended. With a main account configured, the submission accepted and the
  receipt mined, a session-key payment returns a receipt and debits the key exactly when
  \<open>now < expiresAt\<close> (in whole seconds) and \<open>amount \<le> remainingLimit\<close>, the amount being
  a \<open>uint256\<close>; whether the key has been revoked plays no part. When \<open>now \<ge> expiresAt\<close>
  it fails with "Session key has expired"; otherwise, when \<open>amount > remainingLimit\<close>, it
  fails with "Amount exceeds session key limit" carrying the remaining limit; the key is
  unchanged in both cases. In particular a payment of exactly \<open>remainingLimit\<close> succeeds
  and one of \<open>remainingLimit + 1\<close> fails with the limit error.
\<close>

theorem payment_validation:
  assumes "account c = Some acct" "submit env = Accepted h" "receipt env = Mined ok b"
  shows "((\<exists>rc. sendPaymentWithSessionKey sg env c to amnt k =
               (Inr rc, k\<lparr>remainingLimit := remainingLimit k - amnt\<rparr>)) \<longleftrightarrow>
            now_ms env div 1000 < expiresAt k \<and> amnt \<le> remainingLimit k \<and> uint256 amnt) \<and>
         (expiresAt k \<le> now_ms env div 1000 \<longrightarrow>
            sendPaymentWithSessionKey sg env c to amnt k = (Inl SessionKeyExpired, k)) \<and>
         (now_ms env div 1000 < expiresAt k \<and> remainingLimit k < amnt \<longrightarrow>
            sendPaymentWithSessionKey sg env c to amnt k =
              (Inl (AmountExceedsLimit (fromWei (remainingLimit k))), k)) \<and>
         (now_ms env div 1000 < expiresAt k \<and> uint256 (remainingLimit k) \<longrightarrow>
            (\<exists>rc. sendPaymentWithSessionKey sg env c to (remainingLimit k) k =
               (Inr rc, k\<lparr>remainingLimit := 0\<rparr>)) \<and>
            sendPaymentWithSessionKey sg env c to (remainingLimit k + 1) k =
              (Inl (AmountExceedsLimit (fromWei (remainingLimit k))), k))"
  using assms
  by (auto simp: pay_defs)

text \<open>
  Witness for C3: with 100 remaining, a payment of 101 fails with the limit error and a
  payment of 100 succeeds, leaving 0.
\<close>

theorem payment_validation_witness:
  "sendPaymentWithSessionKey example_signer env_confirmed client0 2 101 key0 =
     (Inl (AmountExceedsLimit (fromWei 100)), key0) \<and>
   (\<exists>rc. sendPaymentWithSessionKey example_signer env_confirmed client0 2 100 key0 =
     (Inr rc, key0\<lparr>remainingLimit := 0\<rparr>))"
proof -
  have a: "account client0 = Some 1" "submit env_confirmed = Accepted 99"
    "receipt env_confirmed = Mined True 12"
    by (simp_all add: fixtures)
  have b: "now_ms env_confirmed div 1000 < expiresAt key0 \<and> uint256 (remainingLimit key0)"
    by (simp add: fixtures uint256_def)
  from payment_validation [OF a, of example_signer 2 100 key0] b
  show ?thesis by (simp add: key0_def)
qed

subsection \<open>Claim C4: the debit and the payment's outcome\<close>

text \<open>
  Counterexample for C4: a payment of 80 against a limit of 100 is submitted and mined
  with status \<open>reverted\<close>. The receipt says \<open>FAILED\<close> and the key is left with 20, not
  with 100.
\<close>

theorem failed_payment_counterexample:
  "sendPaymentWithSessionKey example_signer env_reverted client0 2 80 key0 =
     (Inr \<lparr>r_hash = 99, r_from = 1, r_to = 2, r_amount = 80, r_status = FAILED,
           r_timestamp = 1501, r_blockNumber = 12\<rparr>,
      key0\<lparr>remainingLimit := 20\<rparr>) \<and> remainingLimit key0 = 100"
  by (simp add: pay_defs fixtures)

text \<open>
  Claim C4, amended. The key is debited by the amount as soon as the transfer has been
  submitted, before its outcome is known, and nothing restores it: whenever a payment
  returns a receipt, \<open>CONFIRMED\<close> or \<open>FAILED\<close> (the latter exactly when the transaction
  was mined as reverted), \<open>remainingLimit\<close> has gone down by the amount, and so it has when
  only the wait for the receipt throws; the key is unchanged exactly when the call throws
  before a transaction hash is obtained.
\<close>

theorem debit_at_submission:
  assumes "sendPaymentWithSessionKey sg env c to amnt k = (res, k')"
  shows "(\<forall>rc. res = Inr rc \<longrightarrow>
            (r_status rc = CONFIRMED \<or> r_status rc = FAILED) \<and>
            (r_status rc = FAILED \<longleftrightarrow> (\<exists>b. receipt env = Mined False b)) \<and>
            remainingLimit k' = remainingLimit k - amnt) \<and>
         (res = Inl WaitForReceiptRejected \<longrightarrow> remainingLimit k' = remainingLimit k - amnt) \<and>
         (\<forall>e. res = Inl e \<and> e \<noteq> WaitForReceiptRejected \<longrightarrow> k' = k)"
  using assms
  by (auto simp: pay_defs
           split: if_splits option.splits sum.splits write_outcome.splits receipt_outcome.splits)

text \<open>Witness for C4: the reverted payment of 80, which leaves 20 of 100.\<close>

theorem debit_at_submission_witness:
  "remainingLimit (key0\<lparr>remainingLimit := 20\<rparr>) = remainingLimit key0 - 80"
proof -
  have "sendPaymentWithSessionKey example_signer env_reverted client0 2 80 key0 =
     (Inr \<lparr>r_hash = 99, r_from = 1, r_to = 2, r_amount = 80, r_status = FAILED,
           r_timestamp = 1501, r_blockNumber = 12\<rparr>,
      key0\<lparr>remainingLimit := 20\<rparr>)"
    by (simp add: pay_defs fixtures)
  from debit_at_submission [OF this] show ?thesis by simp
qed

subsection \<open>Claim C7: revoking twice\<close>

text \<open>
  Counterexample for C7: the first \<open>revokeSessionKey\<close> sends the allowance-zeroing
  approval and removes the key; the second one, on the resulting client, throws
  "Session key not found" instead of returning.
\<close>

theorem revoke_twice_counterexample:
  "revokeSessionKey (Accepted 5) client0 ''agent'' = (Inr 5, client0_revoked, [WriteApprove 1 1007 0]) \<and>
   revokeSessionKey (Accepted 6) client0_revoked ''agent'' = (Inl SessionKeyNotFound, client0_revoked, [])"
  by (simp add: revokeSessionKey_def approve_def toWei_zero writeContract_def uint256_def fixtures)

text \<open>
  Claim C7, amended. A successful first revocation sends exactly one transaction,
  \<open>approve(sessionAddress, 0)\<close> from the main account, and removes the key from the
  client's map; any later revocation of the same key id fails with "Session key not
  found", sends no transaction and leaves the client unchanged.
\<close>

theorem revoke_then_not_found:
  assumes "revokeSessionKey oc c keyId = (Inr h, c', sent)"
  shows "sessionKeys c' keyId = None \<and>
         (\<exists>acct k. account c = Some acct \<and> sessionKeys c keyId = Some k \<and>
              sent = [WriteApprove acct (address k) 0]) \<and>
         revokeSessionKey oc' c' keyId = (Inl SessionKeyNotFound, c', [])"
proof -
  from assms obtain k where k: "sessionKeys c keyId = Some k"
    and ap: "approve oc c (address k) ''0'' = (Inr h, sent)"
    and c': "c' = c\<lparr>sessionKeys := (sessionKeys c)(keyId := None)\<rparr>"
    by (auto simp: revokeSessionKey_def split: option.splits prod.splits sum.splits)
  from approve_sent [OF ap] obtain acct where "account c = Some acct" "sent = [WriteApprove acct (address k) 0]"
    by (auto simp: toWei_zero)
  then show ?thesis using k c' by (simp add: revokeSessionKey_def)
qed

text \<open>Witness for C7: the key \<open>agent\<close> of the example client, revoked and revoked again.\<close>

theorem revoke_then_not_found_witness:
  "sessionKeys client0_revoked ''agent'' = None \<and>
   revokeSessionKey Rejected client0_revoked ''agent'' = (Inl SessionKeyNotFound, client0_revoked, [])"
proof -
  have "revokeSessionKey (Accepted 5) client0 ''agent'' = (Inr 5, client0_revoked, [WriteApprove 1 1007 0])"
    by (simp add: revokeSessionKey_def approve_def toWei_zero writeContract_def uint256_def fixtures)
  from revoke_then_not_found [OF this, of Rejected] show ?thesis by simp
qed

subsection \<open>Claim C9: two payments at once\<close>

text \<open>
  Counterexample for C9: with 100 remaining, two payments of 80 are started together.
  Both pass the limit check against 100 before either debit, both return a \<open>CONFIRMED\<close>
  receipt, and the key is left with \<open>-60\<close>.
\<close>

theorem concurrent_debits_counterexample:
  "two_concurrent_payments example_signer client0 key0 env_confirmed 2 80 env_confirmed 3 80 =
     (Finished (Inr \<lparr>r_hash = 99, r_from = 1, r_to = 2, r_amount = 80, r_status = CONFIRMED,
           r_timestamp = 1501, r_blockNumber = 12\<rparr>),
      Finished (Inr \<lparr>r_hash = 99, r_from = 1, r_to = 3, r_amount = 80, r_status = CONFIRMED,
           r_timestamp = 1501, r_blockNumber = 12\<rparr>),
      key0\<lparr>remainingLimit := - 60\<rparr>) \<and> remainingLimit key0 = 100"
  by (simp add: two_concurrent_payments_def payment_start_def payment_submitted_def
        payment_mined_def pay_defs fixtures)

text \<open>
  Claim C9, amended. Debits are not serialized per key. Let two payments each fit the
  remaining limit but not together, with valid amounts, an unexpired key, accepted
  submissions and mined receipts. Started together, both pass the check and both debit,
  leaving \<open>remainingLimit\<close> negative. Made one after the other, the first succeeds and the
  second fails with the limit error carrying what the first one left.
\<close>

theorem debits_not_serialized:
  assumes "account c = Some acct"
    and "now_ms envA div 1000 < expiresAt k" "now_ms envB div 1000 < expiresAt k"
    and "uint256 a" "uint256 b" "a \<le> remainingLimit k" "b \<le> remainingLimit k"
    and "remainingLimit k < a + b"
    and "submit envA = Accepted hA" "submit envB = Accepted hB"
    and "receipt envA = Mined okA bA" "receipt envB = Mined okB bB"
  shows "(\<exists>rcA rcB k2. two_concurrent_payments sg c k envA toA a envB toB b =
              (Finished (Inr rcA), Finished (Inr rcB), k2) \<and>
            remainingLimit k2 = remainingLimit k - a - b \<and> remainingLimit k2 < 0) \<and>
         (\<exists>rcA. sendPaymentWithSessionKey sg envA c toA a k =
              (Inr rcA, k\<lparr>remainingLimit := remainingLimit k - a\<rparr>) \<and>
            sendPaymentWithSessionKey sg envB c toB b (k\<lparr>remainingLimit := remainingLimit k - a\<rparr>) =
              (Inl (AmountExceedsLimit (fromWei (remainingLimit k - a))),
               k\<lparr>remainingLimit := remainingLimit k - a\<rparr>))"
  using assms
  by (auto simp: two_concurrent_payments_def payment_start_def payment_submitted_def
        payment_mined_def pay_defs)

text \<open>
  Witness for C9: 100 remaining and two payments of 80: one after the other the second
  is refused with 20 remaining; together both succeed and \<open>-60\<close> remains.
\<close>

theorem debits_not_serialized_witness:
  "sendPaymentWithSessionKey example_signer env_confirmed client0 3 80 (key0\<lparr>remainingLimit := 20\<rparr>) =
     (Inl (AmountExceedsLimit (fromWei 20)), key0\<lparr>remainingLimit := 20\<rparr>) \<and>
   (\<exists>rcA rcB k2. two_concurrent_payments example_signer client0 key0 env_confirmed 2 80 env_confirmed 3 80 =
              (Finished (Inr rcA), Finished (Inr rcB), k2) \<and> remainingLimit k2 = - 60)"
proof -
  have a: "account client0 = Some 1" "now_ms env_confirmed div 1000 < expiresAt key0"
    "uint256 80" "80 \<le> remainingLimit key0" "remainingLimit key0 < 80 + 80"
    "submit env_confirmed = Accepted 99" "receipt env_confirmed = Mined True 12"
    by (simp_all add: fixtures uint256_def)
  from debits_not_serialized [OF a(1) a(2) a(2) a(3) a(3) a(4) a(4) a(5) a(6) a(6) a(7) a(7),
      of example_signer 2 3]
  show ?thesis by (auto simp add: key0_def)
qed

section \<open>Unit conversion\<close>

lemma digit_value_digit_char: "d < 10 \<Longrightarrow> digit_value (digit_char d) = Some d"
proof -
  assume "d < 10"
  then have "d \<in> {0, 1, 2, 3, 4, 5, 6, 7, 8, 9}" by auto
  then show ?thesis by (auto simp: digit_value_def digit_char_def)
qed

lemma digit_char_digit: "d < 10 \<Longrightarrow> is_digit (digit_char d)"
proof -
  assume "d < 10"
  then have "d \<in> {0, 1, 2, 3, 4, 5, 6, 7, 8, 9}" by auto
  then show ?thesis by (auto simp: digit_char_def is_digit_def)
qed

lemma parse_digits_append:
  "parse_digits r (xs @ ys) acc =
     (case parse_digits r xs acc of None \<Rightarrow> None | Some a \<Rightarrow> parse_digits r ys a)"
  by (induction xs arbitrary: acc) (auto split: option.splits)

lemma parse_digits10: "parse_digits 10 (digits10 n) 0 = Some n"
proof (induction n rule: digits10.induct)
  case (1 n)
  show ?case
  proof (cases "n < 10")
    case True
    then show ?thesis by (simp add: digits10.simps [of n] digit_value_digit_char)
  next
    case False
    then have ih: "parse_digits 10 (digits10 (n div 10)) 0 = Some (n div 10)"
      using "1.IH" by simp
    have "n mod 10 < 10" by simp
    then show ?thesis
      using False ih
      by (simp add: digits10.simps [of n] parse_digits_append digit_value_digit_char)
  qed
qed

lemma all_digits_digits10: "all_digits (digits10 n)"
proof (induction n rule: digits10.induct)
  case (1 n)
  show ?case
  proof (cases "n < 10")
    case True
    then show ?thesis
      using digit_char_digit [of n] by (simp add: digits10.simps [of n] all_digits_def)
  next
    case False
    then show ?thesis
      using "1.IH" digit_char_digit [of "n mod 10"]
      by (simp add: digits10.simps [of n] all_digits_def)
  qed
qed

lemma digits10_nonempty: "digits10 n \<noteq> []"
  by (simp add: digits10.simps [of n])

lemma parse_zeros: "parse_digits 10 (replicate k CHR ''0'') 0 = Some 0"
  by (induction k) (auto simp: digit_value_def)

lemma digit_not_special:
  assumes "is_digit c"
  shows "\<not> is_white_space c" "c \<noteq> CHR ''-''" "c \<noteq> CHR ''+''" "c \<noteq> CHR ''.''"
    "c \<noteq> CHR ''x''" "c \<noteq> CHR ''X''" "c \<noteq> CHR ''o''" "c \<noteq> CHR ''O''"
    "c \<noteq> CHR ''b''" "c \<noteq> CHR ''B''"
  using assms by (auto simp: is_white_space_def is_digit_def)

lemma trim_digits:
  assumes "all_digits s"
  shows "trim s = s"
proof (cases s)
  case Nil
  then show ?thesis by (simp add: trim_def)
next
  case (Cons a rest)
  then have "\<not> is_white_space a"
    using assms digit_not_special(1) by (simp add: all_digits_def)
  then have 1: "dropWhile is_white_space s = s"
    using Cons by simp
  have "s \<noteq> []" using Cons by simp
  then have "last s \<in> set s" by simp
  then have "\<not> is_white_space (last s)"
    using assms digit_not_special(1) by (auto simp: all_digits_def)
  then have "\<not> is_white_space (hd (rev s))"
    using \<open>s \<noteq> []\<close> by (simp add: hd_rev)
  then have 2: "dropWhile is_white_space (rev s) = rev s"
    using \<open>s \<noteq> []\<close> by (cases "rev s") auto
  show ?thesis by (simp add: trim_def 1 2)
qed

lemma BigInt_digits:
  assumes "all_digits s" "s \<noteq> []"
  shows "BigInt s = parse_unsigned 10 s"
proof -
  obtain a rest where s: "s = a # rest" using assms(2) by (cases s) auto
  have a: "is_digit a" using assms(1) s by (simp add: all_digits_def)
  have pre: "take 2 s \<notin> {''0x'', ''0X'', ''0o'', ''0O'', ''0b'', ''0B''}"
  proof (cases rest)
    case Nil
    then show ?thesis using s by simp
  next
    case (Cons b rest')
    then have "is_digit b" using assms(1) s by (simp add: all_digits_def)
    from digit_not_special(5-10) [OF this]
    show ?thesis using s Cons by simp
  qed
  have hd: "hd s \<noteq> CHR ''-''" "hd s \<noteq> CHR ''+''"
    using digit_not_special(2,3) [OF a] s by simp_all
  show ?thesis
    unfolding BigInt_def Let_def trim_digits [OF assms(1)]
    using assms(2) pre hd by simp
qed

lemma split_on_no_sep: "c \<notin> set s \<Longrightarrow> split_on c s = [s]"
  by (induction s) auto

lemma split_on_sep: "c \<notin> set a \<Longrightarrow> split_on c (a @ c # b) = a # split_on c b"
  by (induction a) auto

lemma strip_trailing_pad:
  "rev (dropWhile (\<lambda>c. c = z) (rev xs)) @
     replicate (length xs - length (rev (dropWhile (\<lambda>c. c = z) (rev xs)))) z = xs"
proof -
  let ?ys = "rev xs"
  have tw: "takeWhile (\<lambda>c. c = z) ?ys = replicate (length (takeWhile (\<lambda>c. c = z) ?ys)) z"
    by (rule replicate_length_same [symmetric]) (auto dest: set_takeWhileD)
  have len: "length xs - length (rev (dropWhile (\<lambda>c. c = z) ?ys)) = length (takeWhile (\<lambda>c. c = z) ?ys)"
  proof -
    have "length ?ys = length (takeWhile (\<lambda>c. c = z) ?ys) + length (dropWhile (\<lambda>c. c = z) ?ys)"
      by (metis length_append takeWhile_dropWhile_id)
    then show ?thesis by simp
  qed
  have "?ys = takeWhile (\<lambda>c. c = z) ?ys @ dropWhile (\<lambda>c. c = z) ?ys"
    by simp
  then have "xs = rev (dropWhile (\<lambda>c. c = z) ?ys) @ rev (takeWhile (\<lambda>c. c = z) ?ys)"
    by (metis rev_append rev_rev_ident)
  also have "rev (takeWhile (\<lambda>c. c = z) ?ys) = replicate (length (takeWhile (\<lambda>c. c = z) ?ys)) z"
    using tw by (metis rev_replicate)
  finally show ?thesis using len by simp
qed

lemma all_digits_append: "all_digits (xs @ ys) = (all_digits xs \<and> all_digits ys)"
  by (auto simp: all_digits_def)

lemma all_digits_zeros: "all_digits (replicate k CHR ''0'')"
  by (auto simp: all_digits_def is_digit_def)

lemma all_digits_no_dot: "all_digits s \<Longrightarrow> CHR ''.'' \<notin> set s"
  using digit_not_special(4) by (auto simp: all_digits_def)

lemma all_digits_sub: "all_digits s \<Longrightarrow> set t \<subseteq> set s \<Longrightarrow> all_digits t"
  by (auto simp: all_digits_def)

lemma parse_padded: "parse_unsigned 10 (replicate k CHR ''0'' @ digits10 n) = Inr (int n)"
  by (simp add: parse_unsigned_def digits10_nonempty parse_digits_append parse_zeros parse_digits10)

subsection \<open>Claim C10: \<open>toWei\<close> inverts \<open>fromWei\<close>\<close>

text \<open>
  Claim C10. For every non-negative \<open>w\<close>, \<open>toWei (fromWei w)\<close> returns \<open>w\<close>: \<open>fromWei\<close>
  writes \<open>w\<close> with six decimals and drops the trailing zeros (and the point, when no
  decimal is left); \<open>toWei\<close> pads the decimals back to six digits and parses the digits.
\<close>

theorem toWei_fromWei:
  assumes "0 \<le> w"
  shows "toWei (fromWei w) = Inr w"
proof -
  define weiStr where "weiStr = padStart (bigint_toString w) (decimals + 1) CHR ''0''"
  define p where "p = length weiStr - decimals"
  define whole where "whole = take p weiStr"
  define decimal where "decimal = drop p weiStr"
  define trimmed where "trimmed = rev (dropWhile (\<lambda>c. c = CHR ''0'') (rev decimal))"
  have ws: "weiStr = replicate (7 - length (digits10 (nat w))) CHR ''0'' @ digits10 (nat w)"
    using assms by (simp add: weiStr_def padStart_def bigint_toString_def decimals_def)
  have dig: "all_digits weiStr"
    by (simp add: ws all_digits_append all_digits_zeros all_digits_digits10)
  have len: "7 \<le> length weiStr"
    by (simp add: ws)
  have p: "1 \<le> p" "p + 6 = length weiStr"
    using len by (simp_all add: p_def decimals_def)
  have whole_ne: "whole \<noteq> []"
    using p by (auto simp: whole_def)
  have declen: "length decimal = 6"
    using p by (simp add: decimal_def)
  have wd: "whole @ decimal = weiStr"
    by (simp add: whole_def decimal_def)
  have dw: "all_digits whole" and dd: "all_digits decimal"
    using dig all_digits_append [of whole decimal] by (simp_all add: wd)
  have "set trimmed \<subseteq> set decimal"
    by (auto simp: trimmed_def dest: set_dropWhileD)
  then have dt: "all_digits trimmed"
    using dd all_digits_sub by blast
  have pad: "padEnd trimmed decimals CHR ''0'' = decimal"
    using strip_trailing_pad [of "CHR ''0''" decimal]
    by (simp add: padEnd_def trimmed_def declen decimals_def)
  have take_ne: "take p weiStr \<noteq> []"
    using whole_ne by (simp add: whole_def)
  have out: "fromWei w = (if trimmed \<noteq> [] then whole @ ''.'' @ trimmed else whole)"
    unfolding fromWei_def Let_def trimmed_def decimal_def whole_def p_def weiStr_def
    using take_ne [unfolded p_def weiStr_def]
    by (simp only: if_False)
  have parts: "split_on CHR ''.'' (fromWei w) = (if trimmed \<noteq> [] then [whole, trimmed] else [whole])"
    using all_digits_no_dot [OF dw] all_digits_no_dot [OF dt]
    by (simp add: out split_on_sep split_on_no_sep)
  have "toWei (fromWei w) = BigInt (whole @ take decimals (padEnd trimmed decimals CHR ''0''))"
    by (cases "trimmed = []") (simp_all add: toWei_def Let_def parts)
  also have "\<dots> = BigInt weiStr"
    by (simp add: pad [unfolded decimals_def] declen decimals_def wd)
  also have "\<dots> = parse_unsigned 10 weiStr"
    using dig len by (intro BigInt_digits) auto
  also have "\<dots> = Inr (int (nat w))"
    unfolding ws by (rule parse_padded)
  finally show ?thesis using assms by simp
qed

text \<open>Witness for C10: one and a half tokens.\<close>

theorem toWei_fromWei_witness: "(0::int) \<le> 1500000 \<and> toWei (fromWei 1500000) = Inr 1500000"
  using toWei_fromWei [of 1500000] by simp

end
